theory Spec2Isabelle
  imports Main
begin

section \<open>The image generation script: data and library functions\<close>

text \<open>
  The development embeds \<^verbatim>\<open>skills/nano-banana-pro/scripts/generate_image.py\<close>.
  A run of \<^verbatim>\<open>main\<close> is a function of the parsed arguments and of what the
  environment answers (credential variable, clock, image files, remote service); it
  yields the list of the effects it performs, in order, and how the process ends.
  The imports of the client and image libraries, the construction of the client,
  directory creation, file writes and image encoding are taken to succeed; paths are
  POSIX paths. A \<^typ>\<open>char\<close> stands for one character of a Python string.
\<close>

subsection \<open>Python values\<close>

definition truthy :: "string option \<Rightarrow> bool" where
  \<comment> \<open>Truth value of an optional string argument: \<^verbatim>\<open>None\<close> and \<^verbatim>\<open>""\<close> are false.\<close>
  "truthy v = (case v of None \<Rightarrow> False | Some s \<Rightarrow> s \<noteq> [])"

fun str_nat :: "nat \<Rightarrow> string" where
  \<comment> \<open>\<^verbatim>\<open>str(n)\<close> for a non-negative integer: its decimal digits.\<close>
  "str_nat n = (if n < 10 then [''0123456789'' ! n]
                else str_nat (n div 10) @ [''0123456789'' ! (n mod 10)])"

declare str_nat.simps [simp del]

definition str_int :: "int \<Rightarrow> string" where
  \<comment> \<open>\<^verbatim>\<open>str(i)\<close> for a Python integer.\<close>
  "str_int i = (if i < 0 then ''-'' @ str_nat (nat (- i)) else str_nat (nat i))"

definition zfill :: "nat \<Rightarrow> string \<Rightarrow> string" where
  \<comment> \<open>Left padding with zeros up to a minimum width, as the format \<^verbatim>\<open>03d\<close> and
     \<^verbatim>\<open>strftime\<close> do on non-negative numbers.\<close>
  "zfill w s = replicate (w - length s) (CHR ''0'') @ s"

record datetime =
  year :: nat
  month :: nat
  day :: nat
  hour :: nat
  minute :: nat
  second :: nat

definition strftime :: "datetime \<Rightarrow> string" where
  \<comment> \<open>\<^verbatim>\<open>strftime("%Y%m%d-%H%M%S")\<close>.\<close>
  "strftime t = zfill 4 (str_nat (year t)) @ zfill 2 (str_nat (month t))
     @ zfill 2 (str_nat (day t)) @ ''-'' @ zfill 2 (str_nat (hour t))
     @ zfill 2 (str_nat (minute t)) @ zfill 2 (str_nat (second t))"

subsection \<open>\<^verbatim>\<open>pathlib\<close> paths\<close>

datatype path = PurePath (root: string) (parts: "string list")

fun split_sep :: "string \<Rightarrow> string list" where
  \<comment> \<open>\<^verbatim>\<open>s.split('/')\<close>\<close>
  "split_sep [] = [[]]"
| "split_sep (c # cs) =
     (if c = CHR ''/'' then [] # split_sep cs
      else (case split_sep cs of [] \<Rightarrow> [[c]] | w # ws \<Rightarrow> (c # w) # ws))"

definition splitroot :: "string \<Rightarrow> string \<times> string" where
  \<comment> \<open>\<^verbatim>\<open>posixpath.splitroot\<close>: one leading slash or three and more make the root
     \<^verbatim>\<open>/\<close>, exactly two make the root \<^verbatim>\<open>//\<close>.\<close>
  "splitroot p =
     (if take 1 p \<noteq> ''/'' then ([], p)
      else if take 1 (drop 1 p) \<noteq> ''/'' \<or> take 1 (drop 2 p) = ''/'' then (''/'', drop 1 p)
      else (''//'', drop 2 p))"

definition Path :: "string \<Rightarrow> path" where
  \<comment> \<open>\<^verbatim>\<open>Path(s)\<close>: the root, then the components that are neither empty nor a dot.\<close>
  "Path s = (case splitroot s of (r, rel) \<Rightarrow>
     PurePath r (filter (\<lambda>x. x \<noteq> [] \<and> x \<noteq> ''.'') (split_sep rel)))"

definition joinpath :: "path \<Rightarrow> path \<Rightarrow> path" where
  \<comment> \<open>\<^verbatim>\<open>a / b\<close>: an absolute right operand replaces the left one.\<close>
  "joinpath a b = (if root b \<noteq> [] then b else PurePath (root a) (parts a @ parts b))"

definition parent :: "path \<Rightarrow> path" where
  "parent p = (if parts p = [] then p else PurePath (root p) (butlast (parts p)))"

definition name :: "path \<Rightarrow> string" where
  "name p = (if parts p = [] then [] else last (parts p))"

definition is_absolute :: "path \<Rightarrow> bool" where
  "is_absolute p = (root p \<noteq> [])"

fun join_sep :: "string list \<Rightarrow> string" where
  \<comment> \<open>\<^verbatim>\<open>"/".join(xs)\<close>\<close>
  "join_sep [] = []"
| "join_sep [x] = x"
| "join_sep (x # y # ys) = x @ ''/'' @ join_sep (y # ys)"

definition str :: "path \<Rightarrow> string" where
  "str p = (if root p = [] \<and> parts p = [] then ''.'' else root p @ join_sep (parts p))"

subsection \<open>\<^verbatim>\<open>html.escape\<close>\<close>

definition replace :: "char \<Rightarrow> string \<Rightarrow> string \<Rightarrow> string" where
  \<comment> \<open>\<^verbatim>\<open>s.replace(c, r)\<close> for a one-character pattern.\<close>
  "replace c r s = concat (map (\<lambda>x. if x = c then r else [x]) s)"

definition escape :: "string \<Rightarrow> string" where
  \<comment> \<open>\<^verbatim>\<open>html.escape(s)\<close> with its default \<^verbatim>\<open>quote=True\<close>: the ampersand first,
     then the angle brackets, then both quotation marks.\<close>
  \<open>escape s =
     replace (CHR 0x27) ''&#x27;''
       (replace (CHR 0x22) ''&quot;''
         (replace (CHR ''>'') ''&gt;''
           (replace (CHR ''<'') ''&lt;''
             (replace (CHR ''&'') ''&amp;'' s))))\<close>

subsection \<open>Arguments, environment, responses\<close>

type_synonym exn = string
  \<comment> \<open>an exception, by the text that \<^verbatim>\<open>{e}\<close> prints\<close>

record args =
  prompt :: string
  filename :: "string option"
  input_image :: "string option"
  resolution :: string
  aspect_ratio :: string
  count :: int
  out_dir :: "string option"
  model :: string
  api_key :: "string option"
  no_gallery :: bool

datatype image_mode = RGBA | RGB | OtherMode

record pil_image =
  mode :: image_mode
  size_wh :: "nat \<times> nat"
  pixels :: nat

datatype image_data = Undecodable exn | Picture pil_image
  \<comment> \<open>inline bytes of a response part: what base64 decoding and \<^verbatim>\<open>PILImage.open\<close>
     make of them, an exception or an image\<close>

record part =
  part_text :: "string option"
  inline_data :: "image_data option"

datatype outcome = Raised exn | Response "part list"
  \<comment> \<open>a remote call raises, or returns a response whose \<^verbatim>\<open>parts\<close> are these\<close>

record env =
  GEMINI_API_KEY :: "string option"
  now :: datetime
  open_image :: "string \<Rightarrow> exn + pil_image"
  generate_content :: "nat \<Rightarrow> outcome"
  resolve :: "path \<Rightarrow> path"

text \<open>
  \<^const>\<open>generate_content\<close> gives the outcome of the remote call of each loop index (the
  request is the same at every index), \<^const>\<open>open_image\<close> what opening the input image
  file gives, \<^const>\<open>resolve\<close> the absolute form of a path in the file system.
\<close>

datatype contents = PromptOnly string | ImageAndPrompt pil_image string

datatype png = OnWhite pil_image | AsIs pil_image | ConvertedRGB pil_image

datatype json = JNull | JString string | JArray "json list" | JObject "(string \<times> json) list"

datatype file_text = JsonDump json | Text string

type_synonym image_dict = "(string \<times> string option) list"
  \<comment> \<open>a dictionary of \<^verbatim>\<open>generated_images\<close>, keys in insertion order; the value
     \<^verbatim>\<open>None\<close> is \<^const>\<open>None\<close>\<close>

datatype event =
    Stdout string
  | Stderr string
  | Mkdir path
  | OpenImage string
  | GenerateContent string contents "(string \<times> string) list"
  | Save path png
  | WriteText path file_text

text \<open>
  \<^const>\<open>Stdout\<close> and \<^const>\<open>Stderr\<close> are one \<^verbatim>\<open>print\<close> call each, with the text it
  is given. \<^const>\<open>GenerateContent\<close> is one remote call with its model, contents and the
  keyword arguments of its image configuration. \<^const>\<open>Save\<close> is one call of
  \<^verbatim>\<open>save(path, 'PNG')\<close>, \<^const>\<open>WriteText\<close> one call of \<^verbatim>\<open>write_text\<close>.
\<close>

datatype status = Exit nat | Uncaught exn

definition exit_code :: "status \<Rightarrow> nat" where
  \<comment> \<open>the exit status of the process: an uncaught exception ends it with status 1\<close>
  "exit_code st = (case st of Exit n \<Rightarrow> n | Uncaught e \<Rightarrow> 1)"

definition and_then :: "'e + 'a \<Rightarrow> ('a \<Rightarrow> 'e + 'b) \<Rightarrow> 'e + 'b" where
  "and_then m f = (case m of Inl e \<Rightarrow> Inl e | Inr x \<Rightarrow> f x)"

definition getitem :: "image_dict \<Rightarrow> string \<Rightarrow> exn + string option" where
  \<comment> \<open>\<^verbatim>\<open>img[key]\<close>\<close>
  "getitem img key = (case map_of img key of None \<Rightarrow> Inl (''KeyError: '' @ key) | Some v \<Rightarrow> Inr v)"

definition get :: "image_dict \<Rightarrow> string \<Rightarrow> string option \<Rightarrow> string option" where
  \<comment> \<open>\<^verbatim>\<open>img.get(key, default)\<close>\<close>
  "get img key dflt = (case map_of img key of None \<Rightarrow> dflt | Some v \<Rightarrow> v)"

section \<open>The gallery page\<close>

definition gallery_header :: string where
  \<open>gallery_header =
    ''<!DOCTYPE html>\<newline>'' @
    ''<html>\<newline>'' @
    ''<head>\<newline>'' @
    ''    <title>Generated Images</title>\<newline>'' @
    ''    <style>\<newline>'' @
    ''        body { font-family: system-ui, sans-serif; background: #1a1a2e; color: #eee; padding: 20px; }\<newline>'' @
    ''        h1 { text-align: center; color: #ffd700; }\<newline>'' @
    ''        .gallery { display: grid; grid-template-columns: repeat(auto-fill, minmax(300px, 1fr)); gap: 20px; }\<newline>'' @
    ''        .card { background: #16213e; border-radius: 12px; overflow: hidden; box-shadow: 0 4px 6px rgba(0,0,0,0.3); }\<newline>'' @
    ''        .card img { width: 100%; height: auto; display: block; }\<newline>'' @
    ''        .card .info { padding: 12px; }\<newline>'' @
    ''        .card .prompt { font-size: 14px; color: #aaa; word-wrap: break-word; }\<newline>'' @
    ''        .card .meta { font-size: 12px; color: #666; margin-top: 8px; }\<newline>'' @
    ''    </style>\<newline>'' @
    ''</head>\<newline>'' @
    ''<body>\<newline>'' @
    ''    <h1>'' @ [CHR 0xEF, CHR 0xA3, CHR 0xBF, CHR 0xC3, CHR 0xBC, CHR 0xC3, CHR 0xA7, CHR 0xC3, CHR 0xA5]
      @ '' Nano Banana Pro Gallery</h1>\<newline>'' @
    ''    <div class="gallery">\<newline>''\<close>

text \<open>
  The two runs of characters outside ASCII in the page (in the heading and between
  resolution and model) are written as the bytes the source file holds for them.
\<close>

definition card_html :: "string \<Rightarrow> string \<Rightarrow> string \<Rightarrow> string \<Rightarrow> string \<Rightarrow> string" where
  \<comment> \<open>the formatted string of one card, with its five interpolated fields\<close>
  \<open>card_html safe_filename prompt_preview safe_prompt safe_resolution safe_model =
    ''\<newline>'' @
    ''        <div class="card">\<newline>'' @
    ''            <img src="'' @ safe_filename @ ''" alt="'' @ prompt_preview @ ''">\<newline>'' @
    ''            <div class="info">\<newline>'' @
    ''                <div class="prompt">'' @ safe_prompt @ ''</div>\<newline>'' @
    ''                <div class="meta">'' @ safe_resolution
      @ '' '' @ [CHR 0xE2, CHR 0x80, CHR 0x9A, CHR 0xC3, CHR 0x84, CHR 0xC2, CHR 0xA2] @ '' ''
      @ safe_model @ ''</div>\<newline>'' @
    ''            </div>\<newline>'' @
    ''        </div>\<newline>''\<close>

definition gallery_footer :: string where
  \<open>gallery_footer = ''\<newline>    </div>\<newline></body>\<newline></html>\<newline>''\<close>

definition default_model :: string where
  "default_model = ''gemini-2.0-flash-preview-image-generation''"

definition escape_value :: "string option \<Rightarrow> exn + string" where
  \<comment> \<open>\<^verbatim>\<open>html.escape(v)\<close> on a dictionary value: \<^verbatim>\<open>None\<close> has no \<^verbatim>\<open>replace\<close>\<close>
  "escape_value v = (case v of None \<Rightarrow> Inl ''AttributeError'' | Some s \<Rightarrow> Inr (escape s))"

definition preview :: "string option \<Rightarrow> exn + string" where
  \<comment> \<open>\<^verbatim>\<open>html.escape(p[:50]) + ("..." if len(p) > 50 else "")\<close>\<close>
  "preview v = (case v of None \<Rightarrow> Inl ''TypeError''
     | Some p \<Rightarrow> Inr (escape (take 50 p) @ (if length p > 50 then ''...'' else [])))"

definition card :: "image_dict \<Rightarrow> exn + string" where
  \<comment> \<open>the body of the loop over \<^verbatim>\<open>images\<close>\<close>
  "card img =
     and_then (and_then (getitem img ''filename'') escape_value) (\<lambda>safe_filename.
     and_then (and_then (getitem img ''prompt'') escape_value) (\<lambda>safe_prompt.
     and_then (and_then (getitem img ''resolution'') escape_value) (\<lambda>safe_resolution.
     and_then (escape_value (get img ''model'' (Some default_model))) (\<lambda>safe_model.
     and_then (and_then (getitem img ''prompt'') preview) (\<lambda>prompt_preview.
       Inr (card_html safe_filename prompt_preview safe_prompt safe_resolution safe_model))))))"

fun cards :: "image_dict list \<Rightarrow> exn + string" where
  "cards [] = Inr []"
| "cards (img # images) =
     and_then (card img) (\<lambda>c. and_then (cards images) (\<lambda>cs. Inr (c @ cs)))"

definition generate_gallery_html :: "path \<Rightarrow> image_dict list \<Rightarrow> event list \<times> (exn + path)" where
  "generate_gallery_html output_dir images =
     (let html_path = joinpath output_dir (Path ''index.html'')
      in case cards images of
           Inl e \<Rightarrow> ([], Inl e)
         | Inr cs \<Rightarrow> ([WriteText html_path (Text (gallery_header @ cs @ gallery_footer))],
                      Inr html_path))"

section \<open>The main program\<close>

definition get_api_key :: "env \<Rightarrow> string option \<Rightarrow> string option" where
  "get_api_key e provided_key =
     (if truthy provided_key then provided_key else GEMINI_API_KEY e)"

definition validate_arguments :: "args \<Rightarrow> string option" where
  \<comment> \<open>the two checks under \<^verbatim>\<open># Validate arguments\<close>: the message of the one that fires\<close>
  "validate_arguments a =
     (if count a > 1 \<and> \<not> truthy (out_dir a)
        then Some ''Error: --out-dir is required when --count > 1''
      else if count a = 1 \<and> \<not> truthy (filename a) \<and> \<not> truthy (out_dir a)
        then Some ''Error: --filename or --out-dir is required''
      else None)"

definition missing_key_message :: "event list" where
  "missing_key_message =
     [Stderr ''Error: No API key provided.'',
      Stderr ''Please either:'',
      Stderr ''  1. Provide --api-key argument'',
      Stderr ''  2. Set GEMINI_API_KEY environment variable'']"

definition set_up_output_directory :: "env \<Rightarrow> args \<Rightarrow> exn + path" where
  \<comment> \<open>\<^verbatim>\<open># Set up output directory\<close>: \<^verbatim>\<open>Path(None)\<close> raises a \<^verbatim>\<open>TypeError\<close>\<close>
  "set_up_output_directory e a =
     (if truthy (out_dir a)
      then (case out_dir a of
              None \<Rightarrow> Inl ''TypeError''
            | Some d \<Rightarrow> Inr (joinpath (Path d) (Path (''nano-banana-'' @ strftime (now e)))))
      else (case filename a of
              None \<Rightarrow> Inl ''TypeError''
            | Some f \<Rightarrow> Inr (parent (Path f))))"

definition detect_resolution :: "pil_image \<Rightarrow> string" where
  \<comment> \<open>the branch under \<^verbatim>\<open># Auto-detect resolution if default\<close>\<close>
  "detect_resolution img =
     (case size_wh img of (width, height) \<Rightarrow>
        let max_dim = max width height
        in if max_dim \<ge> 3000 then ''4K''
           else if max_dim \<ge> 1500 then ''2K''
           else ''1K'')"

definition load_input_image ::
  "env \<Rightarrow> args \<Rightarrow> event list \<times> (status + pil_image option \<times> string)" where
  \<comment> \<open>\<^verbatim>\<open># Load input image if provided\<close>: the image and \<^verbatim>\<open>output_resolution\<close>\<close>
  "load_input_image e a =
     (if truthy (input_image a)
      then (case input_image a of
              None \<Rightarrow> ([], Inr (None, resolution a))
            | Some p \<Rightarrow>
               (case open_image e p of
                  Inl err \<Rightarrow>
                    ([OpenImage p, Stderr (''Error loading input image: '' @ err)], Inl (Exit 1))
                | Inr img \<Rightarrow>
                    if resolution a = ''1K''
                    then ([OpenImage p, Stdout (''Loaded input image: '' @ p),
                           Stdout (''Auto-detected resolution: '' @ detect_resolution img
                             @ '' (from input '' @ str_nat (fst (size_wh img)) @ ''x''
                             @ str_nat (snd (size_wh img)) @ '')'')],
                          Inr (Some img, detect_resolution img))
                    else ([OpenImage p, Stdout (''Loaded input image: '' @ p)],
                          Inr (Some img, resolution a))))
      else ([], Inr (None, resolution a)))"

definition output_path_of :: "args \<Rightarrow> path \<Rightarrow> nat \<Rightarrow> path" where
  \<comment> \<open>\<^verbatim>\<open>output_path\<close> of the loop index \<open>i\<close>\<close>
  "output_path_of a output_dir i =
     (if count a > 1
      then joinpath output_dir (Path (''image-'' @ zfill 3 (str_nat (i + 1)) @ ''.png''))
      else if truthy (filename a)
      then (case filename a of
              None \<Rightarrow> joinpath output_dir (Path ''image.png'')
            | Some f \<Rightarrow>
                if \<not> is_absolute (Path f) then joinpath output_dir (Path f) else Path f)
      else joinpath output_dir (Path ''image.png''))"

definition save_png :: "pil_image \<Rightarrow> png" where
  \<comment> \<open>\<^verbatim>\<open># Convert to RGB for PNG\<close>\<close>
  "save_png img =
     (case mode img of
        RGBA \<Rightarrow> OnWhite img
      | RGB \<Rightarrow> AsIs img
      | OtherMode \<Rightarrow> ConvertedRGB img)"

definition image_entry ::
  "env \<Rightarrow> args \<Rightarrow> path \<Rightarrow> string \<Rightarrow> string option \<Rightarrow> image_dict" where
  \<comment> \<open>the dictionary appended to \<^verbatim>\<open>generated_images\<close>\<close>
  "image_entry e a output_path output_resolution model_text =
     [(''filename'', Some (name output_path)),
      (''path'', Some (str (resolve e output_path))),
      (''prompt'', Some (prompt a)),
      (''resolution'', Some output_resolution),
      (''aspect_ratio'', Some (aspect_ratio a)),
      (''model'', Some (model a)),
      (''model_text'', model_text)]"

fun process_response ::
  "env \<Rightarrow> args \<Rightarrow> path \<Rightarrow> string \<Rightarrow> part list \<Rightarrow> bool \<Rightarrow> string option
     \<Rightarrow> image_dict list \<Rightarrow> event list \<times> image_dict list \<times> (exn + bool)" where
  \<comment> \<open>the loop over \<^verbatim>\<open>response.parts\<close>, from the state \<^verbatim>\<open>image_saved\<close>,
     \<^verbatim>\<open>model_text\<close>, \<^verbatim>\<open>generated_images\<close>: the effects, the list and either the
     exception that stops the loop or \<^verbatim>\<open>image_saved\<close>\<close>
  "process_response e a output_path output_resolution [] image_saved model_text generated_images =
     ([], generated_images, Inr image_saved)"
| "process_response e a output_path output_resolution (p # ps) image_saved model_text generated_images =
     (case part_text p of
        Some t \<Rightarrow>
          (case process_response e a output_path output_resolution ps image_saved (Some t)
                  generated_images of
             (evs, gen, r) \<Rightarrow> (Stdout (''Model response: '' @ t) # evs, gen, r))
      | None \<Rightarrow>
          (case inline_data p of
             None \<Rightarrow>
               process_response e a output_path output_resolution ps image_saved model_text
                 generated_images
           | Some (Undecodable err) \<Rightarrow> ([], generated_images, Inl err)
           | Some (Picture img) \<Rightarrow>
               (case process_response e a output_path output_resolution ps True model_text
                       (generated_images
                          @ [image_entry e a output_path output_resolution model_text]) of
                  (evs, gen, r) \<Rightarrow> (Save output_path (save_png img) # evs, gen, r))))"

definition announce :: "args \<Rightarrow> nat \<Rightarrow> event list" where
  \<comment> \<open>the progress line that batch mode prints with the file name\<close>
  "announce a i =
     (if count a > 1
      then [Stdout (''\<newline>['' @ str_nat (i + 1) @ ''/'' @ str_int (count a)
              @ ''] Generating...'')]
      else [])"

definition request :: "args \<Rightarrow> pil_image option \<Rightarrow> string \<Rightarrow> event list" where
  \<comment> \<open>\<^verbatim>\<open># Build contents\<close> and the remote call with its image configuration:
     \<^verbatim>\<open>aspect_ratio\<close> is added only without an input image\<close>
  "request a input_img output_resolution =
     (case input_img of
        Some img \<Rightarrow>
          [Stdout (''Editing image with resolution '' @ output_resolution @ ''...''),
           GenerateContent (model a) (ImageAndPrompt img (prompt a))
             [(''image_size'', output_resolution)]]
      | None \<Rightarrow>
          [Stdout (''Generating image with resolution '' @ output_resolution
             @ '', aspect ratio '' @ aspect_ratio a @ ''...''),
           GenerateContent (model a) (PromptOnly (prompt a))
             [(''image_size'', output_resolution), (''aspect_ratio'', aspect_ratio a)]])"

definition fatal :: "args \<Rightarrow> status option" where
  \<comment> \<open>\<^verbatim>\<open>if args.count == 1: sys.exit(1)\<close>\<close>
  "fatal a = (if count a = 1 then Some (Exit 1) else None)"

definition iteration ::
  "env \<Rightarrow> args \<Rightarrow> path \<Rightarrow> pil_image option \<Rightarrow> string \<Rightarrow> nat \<Rightarrow> image_dict list
     \<Rightarrow> event list \<times> image_dict list \<times> status option" where
  \<comment> \<open>the body of \<^verbatim>\<open>for i in range(args.count)\<close>: the effects, the list
     \<^verbatim>\<open>generated_images\<close> and the status with which the process exits here, if it does\<close>
  "iteration e a output_dir input_img output_resolution i generated_images =
     (let output_path = output_path_of a output_dir i
      in case generate_content e i of
           Raised err \<Rightarrow>
             (announce a i @ request a input_img output_resolution
                @ [Stderr (''Error generating image: '' @ err)],
              generated_images, fatal a)
         | Response ps \<Rightarrow>
             (case process_response e a output_path output_resolution ps False None
                     generated_images of
                (evs, gen, Inl err) \<Rightarrow>
                  (announce a i @ request a input_img output_resolution @ evs
                     @ [Stderr (''Error generating image: '' @ err)],
                   gen, fatal a)
              | (evs, gen, Inr image_saved) \<Rightarrow>
                  if image_saved
                  then (announce a i @ request a input_img output_resolution @ evs
                          @ [Stdout (''Image saved: '' @ str (resolve e output_path))]
                          @ (if count a = 1
                             then [Stdout (''MEDIA: '' @ str (resolve e output_path))]
                             else []),
                        gen, None)
                  else (announce a i @ request a input_img output_resolution @ evs
                          @ [Stderr (''Error: No image was generated in response ''
                               @ str_nat (i + 1) @ ''.'')],
                        gen, fatal a)))"

fun generate_images ::
  "env \<Rightarrow> args \<Rightarrow> path \<Rightarrow> pil_image option \<Rightarrow> string \<Rightarrow> nat list \<Rightarrow> image_dict list
     \<Rightarrow> event list \<times> (status + image_dict list)" where
  \<comment> \<open>the loop \<^verbatim>\<open>for i in range(args.count)\<close> over the indices still to come\<close>
  "generate_images e a output_dir input_img output_resolution [] generated_images =
     ([], Inr generated_images)"
| "generate_images e a output_dir input_img output_resolution (i # is) generated_images =
     (case iteration e a output_dir input_img output_resolution i generated_images of
        (evs, gen, Some st) \<Rightarrow> (evs, Inl st)
      | (evs, gen, None) \<Rightarrow>
          (case generate_images e a output_dir input_img output_resolution is gen of
             (evs', r) \<Rightarrow> (evs @ evs', r)))"

definition prompts_entry :: "image_dict \<Rightarrow> exn + image_dict" where
  \<comment> \<open>one dictionary of \<^verbatim>\<open>prompts_data\<close>\<close>
  "prompts_entry img =
     and_then (getitem img ''filename'') (\<lambda>f.
     and_then (getitem img ''prompt'') (\<lambda>p.
     and_then (getitem img ''resolution'') (\<lambda>r.
     and_then (getitem img ''aspect_ratio'') (\<lambda>ar.
     and_then (getitem img ''model'') (\<lambda>m.
       Inr [(''filename'', f), (''prompt'', p), (''resolution'', r), (''aspect_ratio'', ar),
            (''model'', m), (''model_text'', get img ''model_text'' None)])))))"

fun prompts_data :: "image_dict list \<Rightarrow> exn + image_dict list" where
  "prompts_data [] = Inr []"
| "prompts_data (img # images) =
     and_then (prompts_entry img) (\<lambda>d. and_then (prompts_data images) (\<lambda>ds. Inr (d # ds)))"

definition to_json :: "image_dict list \<Rightarrow> json" where
  \<comment> \<open>the value that \<^verbatim>\<open>json.dumps\<close> serialises: a list of dictionaries of strings and
     \<^verbatim>\<open>None\<close>\<close>
  "to_json ds =
     JArray (map (\<lambda>d. JObject (map (\<lambda>(k, v).
       (k, case v of None \<Rightarrow> JNull | Some x \<Rightarrow> JString x)) d)) ds)"

definition save_metadata :: "args \<Rightarrow> path \<Rightarrow> image_dict list \<Rightarrow> event list \<times> status" where
  \<comment> \<open>\<^verbatim>\<open># Save metadata and generate gallery for batch mode\<close>, to the end of the run\<close>
  "save_metadata a output_dir generated_images =
     (if count a > 1
      then if generated_images = []
           then ([Stderr ''\<newline>Error: No images were successfully generated.''], Exit 1)
           else (case prompts_data generated_images of
                   Inl err \<Rightarrow> ([], Uncaught err)
                 | Inr pd \<Rightarrow>
                    (let prompts_path = joinpath output_dir (Path ''prompts.json'');
                         saved = [WriteText prompts_path (JsonDump (to_json pd)),
                                  Stdout (''\<newline>Metadata saved: '' @ str prompts_path)];
                         summary = [Stdout (''\<newline>Generated ''
                                      @ str_nat (length generated_images) @ ''/''
                                      @ str_int (count a) @ '' images in '' @ str output_dir)]
                     in if \<not> no_gallery a
                        then (case generate_gallery_html output_dir generated_images of
                                (evs, Inl err) \<Rightarrow> (saved @ evs, Uncaught err)
                              | (evs, Inr gallery_path) \<Rightarrow>
                                  (saved @ evs
                                     @ [Stdout (''Gallery saved: '' @ str gallery_path)]
                                     @ summary,
                                   Exit 0))
                        else (saved @ summary, Exit 0)))
      else ([], Exit 0))"

definition main :: "env \<Rightarrow> args \<Rightarrow> event list \<times> status" where
  "main e a =
     (case validate_arguments a of
        Some msg \<Rightarrow> ([Stderr msg], Exit 1)
      | None \<Rightarrow>
         if \<not> truthy (get_api_key e (api_key a)) then (missing_key_message, Exit 1)
         else (case set_up_output_directory e a of
                 Inl err \<Rightarrow> ([], Uncaught err)
               | Inr output_dir \<Rightarrow>
                  (case load_input_image e a of
                     (ev1, Inl st) \<Rightarrow> (Mkdir output_dir # ev1, st)
                   | (ev1, Inr (input_img, output_resolution)) \<Rightarrow>
                      (case generate_images e a output_dir input_img output_resolution
                              [0..<nat (count a)] [] of
                         (ev2, Inl st) \<Rightarrow> (Mkdir output_dir # ev1 @ ev2, st)
                       | (ev2, Inr generated_images) \<Rightarrow>
                          (case save_metadata a output_dir generated_images of
                             (ev3, st) \<Rightarrow> (Mkdir output_dir # ev1 @ ev2 @ ev3, st))))))"

section \<open>What a run does: projections of the list of effects\<close>

fun saved_paths :: "event list \<Rightarrow> path list" where
  "saved_paths [] = []"
| "saved_paths (Save p g # evs) = p # saved_paths evs"
| "saved_paths (ev # evs) = saved_paths evs"

fun requests :: "event list \<Rightarrow> (string \<times> contents \<times> (string \<times> string) list) list" where
  "requests [] = []"
| "requests (GenerateContent m c cfg # evs) = (m, c, cfg) # requests evs"
| "requests (ev # evs) = requests evs"

fun written_texts :: "event list \<Rightarrow> (path \<times> file_text) list" where
  "written_texts [] = []"
| "written_texts (WriteText p t # evs) = (p, t) # written_texts evs"
| "written_texts (ev # evs) = written_texts evs"

fun made_dirs :: "event list \<Rightarrow> path list" where
  "made_dirs [] = []"
| "made_dirs (Mkdir p # evs) = p # made_dirs evs"
| "made_dirs (ev # evs) = made_dirs evs"

section \<open>Notions of the statements\<close>

text \<open>
  The definitions of this section are not part of the script: they name what the
  statements about it speak of.
\<close>

definition has_image_part :: "part list \<Rightarrow> bool" where
  "has_image_part ps = list_ex (\<lambda>p. part_text p = None \<and> inline_data p \<noteq> None) ps"

definition is_picture :: "part \<Rightarrow> bool" where
  \<comment> \<open>a part without text whose inline data decode to an image\<close>
  "is_picture p =
     (part_text p = None
      \<and> (case inline_data p of Some (Picture img) \<Rightarrow> True | _ \<Rightarrow> False))"

definition is_undecodable :: "part \<Rightarrow> bool" where
  \<comment> \<open>a part without text whose inline data do not decode\<close>
  "is_undecodable p =
     (part_text p = None
      \<and> (case inline_data p of Some (Undecodable err) \<Rightarrow> True | _ \<Rightarrow> False))"

definition processed_parts :: "part list \<Rightarrow> part list" where
  \<comment> \<open>the parts that the loop handles before an exception stops it\<close>
  "processed_parts ps = takeWhile (\<lambda>p. \<not> is_undecodable p) ps"

definition picture_positions :: "part list \<Rightarrow> nat list" where
  \<comment> \<open>the positions, in order, of the image parts that the loop saves\<close>
  "picture_positions ps =
     filter (\<lambda>j. is_picture (ps ! j)) [0..<length (processed_parts ps)]"

definition last_text :: "string option \<Rightarrow> part list \<Rightarrow> string option" where
  \<comment> \<open>the text of the last text part among \<open>ps\<close>, or \<open>mt\<close> when there is none\<close>
  "last_text mt ps =
     (case filter (\<lambda>p. part_text p \<noteq> None) ps of
        [] \<Rightarrow> mt
      | t # ts \<Rightarrow> part_text (last (t # ts)))"

definition images_saved_from :: "outcome \<Rightarrow> nat" where
  \<comment> \<open>how many images the loop over the parts saves from the outcome of one call\<close>
  "images_saved_from out =
     (case out of Raised err \<Rightarrow> 0 | Response ps \<Rightarrow> length (picture_positions ps))"

definition call_succeeds :: "outcome \<Rightarrow> bool" where
  \<comment> \<open>the call returns a response whose parts are all processed without an exception
     and among which an image is saved\<close>
  "call_succeeds out =
     (case out of
        Raised err \<Rightarrow> False
      | Response ps \<Rightarrow> processed_parts ps = ps \<and> picture_positions ps \<noteq> [])"

definition timestamped_subdirectory :: "env \<Rightarrow> string \<Rightarrow> path" where
  \<comment> \<open>the directory \<^verbatim>\<open>nano-banana-<YYYYMMDD-HHMMSS>\<close> under the caller's root\<close>
  "timestamped_subdirectory e root_dir =
     PurePath (root (Path root_dir))
       (parts (Path root_dir) @ [''nano-banana-'' @ strftime (now e)])"

definition metadata :: "args \<Rightarrow> string \<Rightarrow> path \<times> string option \<Rightarrow> image_dict" where
  "metadata a r pm =
     [(''filename'', Some (name (fst pm))), (''prompt'', Some (prompt a)),
      (''resolution'', Some r), (''aspect_ratio'', Some (aspect_ratio a)),
      (''model'', Some (model a)), (''model_text'', snd pm)]"

definition metadata_object :: "args \<Rightarrow> string \<Rightarrow> path \<times> string option \<Rightarrow> json" where
  \<comment> \<open>the object of the metadata file for an image saved at a path with a recorded text\<close>
  "metadata_object a r pm =
     JObject [(''filename'', JString (name (fst pm))), (''prompt'', JString (prompt a)),
              (''resolution'', JString r), (''aspect_ratio'', JString (aspect_ratio a)),
              (''model'', JString (model a)),
              (''model_text'', case snd pm of None \<Rightarrow> JNull | Some t \<Rightarrow> JString t)]"

definition prompt_preview :: "string \<Rightarrow> string" where
  "prompt_preview p = escape (take 50 p) @ (if length p > 50 then ''...'' else [])"

definition gallery_card :: "args \<Rightarrow> string \<Rightarrow> path \<Rightarrow> string" where
  "gallery_card a r p =
     card_html (escape (name p)) (prompt_preview (prompt a)) (escape (prompt a))
       (escape r) (escape (model a))"

definition markup_free :: "string \<Rightarrow> bool" where
  \<open>markup_free s = list_all (\<lambda>c. c \<noteq> CHR ''<'' \<and> c \<noteq> CHR ''>'' \<and> c \<noteq> CHR 0x22 \<and> c \<noteq> CHR 0x27) s\<close>

definition escape_char :: "char \<Rightarrow> string" where
  \<open>escape_char c =
     (if c = CHR ''&'' then ''&amp;''
      else if c = CHR ''<'' then ''&lt;''
      else if c = CHR ''>'' then ''&gt;''
      else if c = CHR 0x22 then ''&quot;''
      else if c = CHR 0x27 then ''&#x27;''
      else [c])\<close>



section \<open>Example runs\<close>

definition clock0 :: datetime where
  "clock0 = \<lparr>year = 2026, month = 11, day = 4, hour = 1, minute = 31, second = 7\<rparr>"

definition picture0 :: pil_image where
  "picture0 = \<lparr>mode = RGB, size_wh = (1024, 1024), pixels = 0\<rparr>"

definition photo0 :: pil_image where
  "photo0 = \<lparr>mode = RGB, size_wh = (3200, 1800), pixels = 1\<rparr>"

definition text_part :: "string \<Rightarrow> part" where
  "text_part t = \<lparr>part_text = Some t, inline_data = None\<rparr>"

definition image_part :: "image_data \<Rightarrow> part" where
  "image_part d = \<lparr>part_text = None, inline_data = Some d\<rparr>"

definition parts_example :: "part list" where
  "parts_example =
     [text_part ''first'', text_part ''second'', image_part (Picture picture0),
      text_part ''third'']"

definition env0 :: env where
  "env0 = \<lparr>GEMINI_API_KEY = Some ''key'', now = clock0,
     open_image = (\<lambda>p. if p = ''photo.jpg'' then Inr photo0 else Inl ''No such file''),
     generate_content = (\<lambda>i. Response [text_part ''done'', image_part (Picture picture0)]),
     resolve = (\<lambda>p. joinpath (Path ''/work'') p)\<rparr>"

definition env_nokey :: env where
  "env_nokey = env0\<lparr>GEMINI_API_KEY := None\<rparr>"

definition env_down :: env where
  "env_down = env0\<lparr>generate_content := (\<lambda>i. Raised ''timeout'')\<rparr>"

definition env_flaky :: env where
  "env_flaky = env0\<lparr>generate_content :=
     (\<lambda>i. if i = 0 then Raised ''timeout'' else Response [image_part (Picture picture0)])\<rparr>"


definition env_caption :: env where
  "env_caption = env0\<lparr>generate_content :=
     (\<lambda>i. Response [image_part (Picture picture0), text_part ''caption''])\<rparr>"

definition env_texts :: env where
  "env_texts = env0\<lparr>generate_content := (\<lambda>i. Response parts_example)\<rparr>"

definition env_double :: env where
  "env_double = env0\<lparr>generate_content :=
     (\<lambda>i. Response [image_part (Picture picture0), image_part (Picture picture0)])\<rparr>"

definition args0 :: args where
  "args0 = \<lparr>prompt = ''a <b> & c'', filename = None, input_image = None, resolution = ''1K'',
     aspect_ratio = ''16:9'', count = 1, out_dir = None, model = ''m1'', api_key = None,
     no_gallery = False\<rparr>"

definition args_single :: args where
  "args_single = args0\<lparr>filename := Some ''robot.png''\<rparr>"

definition args_edit :: args where
  "args_edit = args0\<lparr>filename := Some ''edited.png'', input_image := Some ''photo.jpg''\<rparr>"

definition args_nested :: args where
  "args_nested = args0\<lparr>filename := Some ''shots/robot.png''\<rparr>"


definition args_batch :: args where
  "args_batch = args0\<lparr>count := 2, out_dir := Some ''out'', no_gallery := True\<rparr>"

definition args_gallery :: args where
  "args_gallery = args0\<lparr>count := 2, out_dir := Some ''out''\<rparr>"

definition args_zero :: args where
  "args_zero = args0\<lparr>count := 0, out_dir := Some ''out''\<rparr>"

definition args_zero_missing :: args where
  "args_zero_missing = args_zero\<lparr>input_image := Some ''missing.jpg''\<rparr>"

definition args_zero_bare :: args where
  "args_zero_bare = args0\<lparr>count := 0\<rparr>"

section \<open>Properties of the stages\<close>

lemma saved_paths_append [simp]: "saved_paths (xs @ ys) = saved_paths xs @ saved_paths ys"
  by (induction xs rule: saved_paths.induct) simp_all

lemma requests_append [simp]: "requests (xs @ ys) = requests xs @ requests ys"
  by (induction xs rule: requests.induct) simp_all

lemma written_texts_append [simp]:
  "written_texts (xs @ ys) = written_texts xs @ written_texts ys"
  by (induction xs rule: written_texts.induct) simp_all

lemma made_dirs_append [simp]: "made_dirs (xs @ ys) = made_dirs xs @ made_dirs ys"
  by (induction xs rule: made_dirs.induct) simp_all

lemma saved_paths_iff: "p \<in> set (saved_paths evs) \<longleftrightarrow> (\<exists>g. Save p g \<in> set evs)"
  by (induction evs rule: saved_paths.induct) auto

lemma requests_iff: "(m, c, cfg) \<in> set (requests evs) \<longleftrightarrow> GenerateContent m c cfg \<in> set evs"
  by (induction evs rule: requests.induct) auto

lemma written_texts_iff: "(p, t) \<in> set (written_texts evs) \<longleftrightarrow> WriteText p t \<in> set evs"
  by (induction evs rule: written_texts.induct) auto

lemma made_dirs_iff: "p \<in> set (made_dirs evs) \<longleftrightarrow> Mkdir p \<in> set evs"
  by (induction evs rule: made_dirs.induct) auto

subsection \<open>File names\<close>

lemma split_sep_plain: "CHR ''/'' \<notin> set s \<Longrightarrow> split_sep s = [s]"
  by (induction s) auto

lemma Path_plain:
  assumes "CHR ''/'' \<notin> set s" and "s \<noteq> []" and "s \<noteq> ''.''"
  shows "Path s = PurePath [] [s]"
proof -
  from assms(1,2) have "take 1 s \<noteq> ''/''" by (cases s) auto
  then have "splitroot s = ([], s)" by (simp add: splitroot_def)
  with assms show ?thesis by (simp add: Path_def split_sep_plain)
qed

lemma joinpath_plain: "joinpath d (PurePath [] [n]) = PurePath (root d) (parts d @ [n])"
  by (simp add: joinpath_def)

lemma name_joinpath_plain [simp]: "name (joinpath d (PurePath [] [n])) = n"
  by (simp add: joinpath_def name_def)

lemma parent_joinpath_plain [simp]: "parent (joinpath d (PurePath [] [n])) = d"
  by (simp add: joinpath_def parent_def)


lemma str_nat_digits: "set (str_nat n) \<subseteq> set ''0123456789''"
proof (induction n rule: str_nat.induct)
  case (1 n)
  have digit: "''0123456789'' ! k \<in> set ''0123456789''" if "k < 10" for k
    using that by (intro nth_mem) simp
  show ?case
  proof (cases "n < 10")
    case True
    with digit [of n] show ?thesis by (subst str_nat.simps) simp
  next
    case False
    with "1.IH" digit [of "n mod 10"] show ?thesis by (subst str_nat.simps) simp
  qed
qed

lemma zfill_set: "set (zfill w s) \<subseteq> insert (CHR ''0'') (set s)"
  by (auto simp: zfill_def)

lemma zfill_digits: "CHR ''/'' \<notin> set (zfill w (str_nat n))"
  using zfill_set [of w "str_nat n"] str_nat_digits [of n] by auto

lemma strftime_plain: "CHR ''/'' \<notin> set (strftime t)"
  by (simp add: strftime_def zfill_digits)

lemma Path_timestamp:
  "Path (''nano-banana-'' @ strftime t) = PurePath [] [''nano-banana-'' @ strftime t]"
  by (rule Path_plain) (simp_all add: strftime_plain)


lemma Path_fixed_names:
  "Path ''image.png'' = PurePath [] [''image.png'']"
  "Path ''prompts.json'' = PurePath [] [''prompts.json'']"
  "Path ''index.html'' = PurePath [] [''index.html'']"
  by (simp_all add: Path_def splitroot_def)








subsection \<open>Escaping\<close>

lemma replace_append: "replace c r (xs @ ys) = replace c r xs @ replace c r ys"
  by (simp add: replace_def)

lemma escape_append: "escape (xs @ ys) = escape xs @ escape ys"
  by (simp add: escape_def replace_append)

lemma escape_single: "escape [c] = escape_char c"
  by (simp add: escape_def replace_def escape_char_def)

lemma escape_chars: "escape s = concat (map escape_char s)"
proof (induction s)
  case Nil
  show ?case by (simp add: escape_def replace_def)
next
  case (Cons c s)
  have "escape (c # s) = escape ([c] @ s)" by simp
  also have "\<dots> = escape_char c @ escape s" by (simp only: escape_append escape_single)
  finally show ?case by (simp add: Cons.IH)
qed

lemma markup_free_append [simp]:
  "markup_free (xs @ ys) \<longleftrightarrow> markup_free xs \<and> markup_free ys"
  by (simp add: markup_free_def)

lemma markup_free_escape: "markup_free (escape s)"
  by (induction s) (simp_all add: escape_chars, simp_all add: markup_free_def escape_char_def)

lemma markup_free_preview: "markup_free (prompt_preview s)"
  by (simp add: prompt_preview_def markup_free_escape) (simp add: markup_free_def)

subsection \<open>One response\<close>

lemma process_response_events:
  "process_response e a p r ps s mt gen = (evs, gen', res) \<Longrightarrow>
   requests evs = [] \<and> written_texts evs = [] \<and> made_dirs evs = []"
proof (induction ps arbitrary: s mt gen evs gen' res)
  case Nil
  then show ?case by simp
next
  case (Cons q qs)
  then show ?case
    by (fastforce split: option.splits image_data.splits prod.splits)
qed

lemma process_response_stdout_or_save:
  "process_response e a p r ps s mt gen = (evs, gen', res) \<Longrightarrow>
   ev \<in> set evs \<Longrightarrow> (\<exists>t. ev = Stdout t) \<or> (\<exists>g. ev = Save p g)"
proof (induction ps arbitrary: s mt gen evs gen' res)
  case Nil
  then show ?case by simp
next
  case (Cons q qs)
  then show ?case
    by (auto split: option.splits image_data.splits prod.splits)
qed

lemma process_response_entries:
  "process_response e a p r ps s mt gen = (evs, gen', res) \<Longrightarrow>
   \<exists>mts. gen' = gen @ map (image_entry e a p r) mts
     \<and> saved_paths evs = replicate (length mts) p"
proof (induction ps arbitrary: s mt gen evs gen' res)
  case Nil
  then show ?case by simp
next
  case (Cons q qs)
  show ?case
  proof (cases "part_text q")
    case (Some t)
    with Cons.prems obtain evs' where
      rec: "process_response e a p r qs s (Some t) gen = (evs', gen', res)"
      and evs: "evs = Stdout (''Model response: '' @ t) # evs'"
      by (auto split: prod.splits)
    from Cons.IH [OF rec] show ?thesis by (simp add: evs)
  next
    case None
    note no_text = None
    show ?thesis
    proof (cases "inline_data q")
      case None
      with no_text Cons.prems have "process_response e a p r qs s mt gen = (evs, gen', res)"
        by simp
      from Cons.IH [OF this] show ?thesis .
    next
      case (Some d)
      show ?thesis
      proof (cases d)
        case (Undecodable err)
        with no_text Some Cons.prems show ?thesis by simp
      next
        case (Picture img)
        with no_text Some Cons.prems obtain evs' where
          rec: "process_response e a p r qs True mt (gen @ [image_entry e a p r mt])
                  = (evs', gen', res)"
          and evs: "evs = Save p (save_png img) # evs'"
          by (auto split: prod.splits)
        from Cons.IH [OF rec] obtain mts where
          "gen' = (gen @ [image_entry e a p r mt]) @ map (image_entry e a p r) mts"
          "saved_paths evs' = replicate (length mts) p"
          by blast
        then show ?thesis
          by (intro exI [of _ "mt # mts"]) (simp add: evs)
      qed
    qed
  qed
qed


lemma process_response_no_image:
  "\<not> has_image_part ps \<Longrightarrow>
   process_response e a p r ps s mt gen = (evs, gen', res) \<Longrightarrow>
   saved_paths evs = [] \<and> gen' = gen \<and> res = Inr s"
proof (induction ps arbitrary: s mt gen evs gen' res)
  case Nil
  then show ?case by simp
next
  case (Cons q qs)
  then show ?case
    by (fastforce simp: has_image_part_def split: option.splits prod.splits)
qed

lemma last_text_Nil [simp]: "last_text mt [] = mt"
  by (simp add: last_text_def)

lemma last_text_Cons:
  "last_text mt (q # qs) = last_text (if part_text q \<noteq> None then part_text q else mt) qs"
  by (auto simp: last_text_def split: list.splits)

lemma last_text_snoc:
  assumes "part_text q = Some t"
  shows "last_text mt (xs @ [q]) = Some t"
proof -
  from assms have "filter (\<lambda>p. part_text p \<noteq> None) (xs @ [q])
      = filter (\<lambda>p. part_text p \<noteq> None) xs @ [q]"
    by simp
  with assms show ?thesis
    by (cases "filter (\<lambda>p. part_text p \<noteq> None) xs") (simp_all add: last_text_def)
qed

lemma filter_upt_Suc:
  "filter Q [0..<Suc n] = (if Q 0 then [0] else []) @ map Suc (filter (\<lambda>j. Q (Suc j)) [0..<n])"
proof -
  have "[0..<Suc n] = 0 # map Suc [0..<n]"
    by (simp add: upt_conv_Cons map_Suc_upt del: upt_Suc)
  then show ?thesis by (simp add: filter_map comp_def del: upt_Suc)
qed

lemma picture_positions_Cons:
  "picture_positions (q # qs) =
     (if is_undecodable q then []
      else (if is_picture q then [0] else []) @ map Suc (picture_positions qs))"
  by (simp add: picture_positions_def processed_parts_def filter_upt_Suc del: upt_Suc)

lemma process_response_model_text:
  "process_response e a p r ps s mt gen = (evs, gen', res) \<Longrightarrow>
   gen' = gen @ map (\<lambda>j. image_entry e a p r (last_text mt (take j ps))) (picture_positions ps)"
proof (induction ps arbitrary: s mt gen evs gen' res)
  case Nil
  then show ?case by (simp add: picture_positions_def processed_parts_def)
next
  case (Cons q qs)
  show ?case
  proof (cases "part_text q")
    case (Some t)
    with Cons.prems obtain evs' where
      rec: "process_response e a p r qs s (Some t) gen = (evs', gen', res)"
      by (auto split: prod.splits)
    from Some have "\<not> is_undecodable q" "\<not> is_picture q"
      by (simp_all add: is_undecodable_def is_picture_def)
    with Cons.IH [OF rec] Some show ?thesis
      by (simp add: picture_positions_Cons comp_def last_text_Cons)
  next
    case None
    note no_text = None
    show ?thesis
    proof (cases "inline_data q")
      case None
      with no_text Cons.prems have
        rec: "process_response e a p r qs s mt gen = (evs, gen', res)" by simp
      from None have "\<not> is_undecodable q" "\<not> is_picture q"
        by (simp_all add: is_undecodable_def is_picture_def)
      with Cons.IH [OF rec] no_text show ?thesis
        by (simp add: picture_positions_Cons comp_def last_text_Cons)
    next
      case (Some d)
      show ?thesis
      proof (cases d)
        case (Undecodable err)
        with no_text Some have "is_undecodable q" by (simp add: is_undecodable_def)
        with no_text Some Undecodable Cons.prems show ?thesis
          by (simp add: picture_positions_Cons)
      next
        case (Picture img)
        with no_text Some Cons.prems obtain evs' where
          rec: "process_response e a p r qs True mt (gen @ [image_entry e a p r mt])
                  = (evs', gen', res)"
          by (auto split: prod.splits)
        from no_text Some Picture have "\<not> is_undecodable q" "is_picture q"
          by (simp_all add: is_undecodable_def is_picture_def)
        with Cons.IH [OF rec] no_text show ?thesis
          by (simp add: picture_positions_Cons comp_def last_text_Cons)
      qed
    qed
  qed
qed

lemma processed_parts_Cons:
  "processed_parts (q # qs) = (if is_undecodable q then [] else q # processed_parts qs)"
  by (simp add: processed_parts_def)

lemma process_response_prints:
  "process_response e a p r ps s mt gen = (evs, gen', res) \<Longrightarrow>
   q \<in> set (processed_parts ps) \<Longrightarrow> part_text q = Some t \<Longrightarrow>
   Stdout (''Model response: '' @ t) \<in> set evs"
proof (induction ps arbitrary: s mt gen evs gen' res)
  case Nil
  then show ?case by (simp add: processed_parts_def)
next
  case (Cons x xs)
  show ?case
  proof (cases "part_text x")
    case (Some u)
    with Cons.prems(1) obtain evs' where
      rec: "process_response e a p r xs s (Some u) gen = (evs', gen', res)"
      and evs: "evs = Stdout (''Model response: '' @ u) # evs'"
      by (auto split: prod.splits)
    from Some have "\<not> is_undecodable x" by (simp add: is_undecodable_def)
    with Cons.prems(2) have "q = x \<or> q \<in> set (processed_parts xs)"
      by (simp add: processed_parts_Cons)
    with Cons.IH [OF rec _ Cons.prems(3)] Some Cons.prems(3) evs show ?thesis by auto
  next
    case None
    note no_text = None
    with Cons.prems(3) have neq: "q \<noteq> x" by auto
    show ?thesis
    proof (cases "inline_data x")
      case None
      with no_text Cons.prems(1) have
        rec: "process_response e a p r xs s mt gen = (evs, gen', res)" by simp
      from None have "\<not> is_undecodable x" by (simp add: is_undecodable_def)
      with Cons.prems(2) neq have "q \<in> set (processed_parts xs)"
        by (simp add: processed_parts_Cons)
      from Cons.IH [OF rec this Cons.prems(3)] show ?thesis .
    next
      case (Some d)
      show ?thesis
      proof (cases d)
        case (Undecodable err)
        with no_text Some have "is_undecodable x" by (simp add: is_undecodable_def)
        with Cons.prems(2) show ?thesis by (simp add: processed_parts_Cons)
      next
        case (Picture img)
        with no_text Some Cons.prems(1) obtain evs' where
          rec: "process_response e a p r xs True mt (gen @ [image_entry e a p r mt])
                  = (evs', gen', res)"
          and evs: "evs = Save p (save_png img) # evs'"
          by (auto split: prod.splits)
        from no_text Some Picture have "\<not> is_undecodable x"
          by (simp add: is_undecodable_def)
        with Cons.prems(2) neq have "q \<in> set (processed_parts xs)"
          by (simp add: processed_parts_Cons)
        from Cons.IH [OF rec this Cons.prems(3)] evs show ?thesis by simp
      qed
    qed
  qed
qed

lemma process_response_saved_count:
  assumes "process_response e a p r ps s mt gen = (evs, gen', res)"
  shows "length (saved_paths evs) = length (picture_positions ps)"
proof -
  from process_response_entries [OF assms] obtain mts where
    "gen' = gen @ map (image_entry e a p r) mts"
    "saved_paths evs = replicate (length mts) p"
    by blast
  moreover from process_response_model_text [OF assms]
  have "gen' = gen @ map (\<lambda>j. image_entry e a p r (last_text mt (take j ps)))
      (picture_positions ps)" .
  ultimately have "length (saved_paths evs) = length mts"
    and "map (image_entry e a p r) mts
       = map (\<lambda>j. image_entry e a p r (last_text mt (take j ps))) (picture_positions ps)"
    by simp_all
  then show ?thesis by (metis length_map)
qed

lemma process_response_result:
  "process_response e a p r ps s mt gen = (evs, gen', res) \<Longrightarrow>
   (processed_parts ps = ps \<longrightarrow> res = Inr (s \<or> picture_positions ps \<noteq> []))
   \<and> (processed_parts ps \<noteq> ps \<longrightarrow> (\<exists>err. res = Inl err))"
proof (induction ps arbitrary: s mt gen evs gen' res)
  case Nil
  then show ?case by (simp add: processed_parts_def picture_positions_def)
next
  case (Cons x xs)
  show ?case
  proof (cases "part_text x")
    case (Some u)
    with Cons.prems obtain evs' where
      rec: "process_response e a p r xs s (Some u) gen = (evs', gen', res)"
      by (auto split: prod.splits)
    from Some have "\<not> is_undecodable x" "\<not> is_picture x"
      by (simp_all add: is_undecodable_def is_picture_def)
    with Cons.IH [OF rec] show ?thesis
      by (simp add: processed_parts_Cons picture_positions_Cons)
  next
    case None
    note no_text = None
    show ?thesis
    proof (cases "inline_data x")
      case None
      with no_text Cons.prems have
        rec: "process_response e a p r xs s mt gen = (evs, gen', res)" by simp
      from None have "\<not> is_undecodable x" "\<not> is_picture x"
        by (simp_all add: is_undecodable_def is_picture_def)
      with Cons.IH [OF rec] show ?thesis
        by (simp add: processed_parts_Cons picture_positions_Cons)
    next
      case (Some d)
      show ?thesis
      proof (cases d)
        case (Undecodable err)
        with no_text Some have "is_undecodable x" by (simp add: is_undecodable_def)
        with no_text Some Undecodable Cons.prems show ?thesis
          by (auto simp: processed_parts_Cons)
      next
        case (Picture img)
        with no_text Some Cons.prems obtain evs' where
          rec: "process_response e a p r xs True mt (gen @ [image_entry e a p r mt])
                  = (evs', gen', res)"
          by (auto split: prod.splits)
        from no_text Some Picture have "\<not> is_undecodable x" "is_picture x"
          by (simp_all add: is_undecodable_def is_picture_def)
        with Cons.IH [OF rec] show ?thesis
          by (simp add: processed_parts_Cons picture_positions_Cons)
      qed
    qed
  qed
qed

subsection \<open>One iteration\<close>

lemma announce_events [simp]:
  "saved_paths (announce a i) = []" "requests (announce a i) = []"
  "written_texts (announce a i) = []" "made_dirs (announce a i) = []"
  by (simp_all add: announce_def)

lemma request_events [simp]:
  "saved_paths (request a im r) = []"
  "written_texts (request a im r) = []" "made_dirs (request a im r) = []"
  by (simp_all add: request_def split: option.splits)

lemma requests_request:
  "requests (request a im r) =
     [(model a,
       (case im of None \<Rightarrow> PromptOnly (prompt a) | Some img \<Rightarrow> ImageAndPrompt img (prompt a)),
       (''image_size'', r) # (case im of None \<Rightarrow> [(''aspect_ratio'', aspect_ratio a)] | Some img \<Rightarrow> []))]"
  by (simp add: request_def split: option.splits)

lemma iteration_cases:
  assumes "iteration e a d im r i gen = (evs, gen', st)"
  obtains (raised) err where
      "generate_content e i = Raised err"
      "evs = announce a i @ request a im r @ [Stderr (''Error generating image: '' @ err)]"
      "gen' = gen" "st = fatal a"
  | (broken) ps evs1 err where
      "generate_content e i = Response ps"
      "process_response e a (output_path_of a d i) r ps False None gen = (evs1, gen', Inl err)"
      "evs = announce a i @ request a im r @ evs1 @ [Stderr (''Error generating image: '' @ err)]"
      "st = fatal a"
  | (saved) ps evs1 where
      "generate_content e i = Response ps"
      "process_response e a (output_path_of a d i) r ps False None gen = (evs1, gen', Inr True)"
      "evs = announce a i @ request a im r @ evs1
         @ [Stdout (''Image saved: '' @ str (resolve e (output_path_of a d i)))]
         @ (if count a = 1
            then [Stdout (''MEDIA: '' @ str (resolve e (output_path_of a d i)))] else [])"
      "st = None"
  | (empty) ps evs1 where
      "generate_content e i = Response ps"
      "process_response e a (output_path_of a d i) r ps False None gen = (evs1, gen', Inr False)"
      "evs = announce a i @ request a im r @ evs1
         @ [Stderr (''Error: No image was generated in response '' @ str_nat (i + 1) @ ''.'')]"
      "st = fatal a"
proof (cases "generate_content e i")
  case (Raised err)
  with assms show ?thesis
    by (intro raised [of err]) (auto simp: iteration_def Let_def)
next
  case (Response ps)
  obtain evs1 g res where
    pr: "process_response e a (output_path_of a d i) r ps False None gen = (evs1, g, res)"
    by (metis prod_cases3)
  show ?thesis
  proof (cases res)
    case (Inl err)
    with assms Response pr show ?thesis
      by (intro broken [of ps evs1 err]) (auto simp: iteration_def Let_def)
  next
    case (Inr b)
    show ?thesis
    proof (cases b)
      case True
      with assms Response pr Inr show ?thesis
        by (intro saved [of ps evs1]) (auto simp: iteration_def Let_def)
    next
      case False
      with assms Response pr Inr show ?thesis
        by (intro empty [of ps evs1]) (auto simp: iteration_def Let_def)
    qed
  qed
qed

lemma iteration_events:
  assumes "iteration e a d im r i gen = (evs, gen', st)"
  shows "requests evs = requests (request a im r)"
    and "written_texts evs = []" and "made_dirs evs = []"
  using assms
  by (cases rule: iteration_cases; simp add: process_response_events)+

lemma iteration_entries:
  assumes "iteration e a d im r i gen = (evs, gen', st)"
  shows "\<exists>mts. gen' = gen @ map (image_entry e a (output_path_of a d i) r) mts
     \<and> saved_paths evs = replicate (length mts) (output_path_of a d i)"
  using assms
proof (cases rule: iteration_cases)
  case (raised err)
  then show ?thesis by simp
next
  case (broken ps evs1 err)
  from process_response_entries [OF broken(2)] broken(3) show ?thesis by simp
next
  case (saved ps evs1)
  from process_response_entries [OF saved(2)] saved(3) show ?thesis by simp
next
  case (empty ps evs1)
  from process_response_entries [OF empty(2)] empty(3) show ?thesis by simp
qed

lemma iteration_status:
  assumes "iteration e a d im r i gen = (evs, gen', st)"
  shows "st = None \<or> (count a = 1 \<and> st = Some (Exit 1))"
  using assms
  by (cases rule: iteration_cases) (auto simp: fatal_def)

lemma iteration_failure:
  assumes "iteration e a d im r i gen = (evs, gen', st)"
    and "(\<exists>err. generate_content e i = Raised err)
       \<or> (\<exists>ps. generate_content e i = Response ps \<and> \<not> has_image_part ps)"
  shows "st = fatal a" and "saved_paths evs = []" and "gen' = gen"
  using assms
  by (cases rule: iteration_cases; auto dest: process_response_no_image)+


lemma iteration_response:
  assumes "iteration e a d im r i gen = (evs, gen', st)"
    and "generate_content e i = Response ps"
  obtains evs1 res tail where
    "process_response e a (output_path_of a d i) r ps False None gen = (evs1, gen', res)"
    "evs = announce a i @ request a im r @ evs1 @ tail" "saved_paths tail = []"
    "(\<exists>msg. Stderr msg \<in> set tail) \<longleftrightarrow> res \<noteq> Inr True"
  using assms
proof (cases rule: iteration_cases)
  case (raised err)
  with assms(2) show ?thesis by simp
next
  case (broken qs evs1 err)
  with assms(2) show ?thesis
    by (intro that [of evs1 "Inl err" "[Stderr (''Error generating image: '' @ err)]"]) auto
next
  case (saved qs evs1)
  with assms(2) show ?thesis
    by (intro that [of evs1 "Inr True"
          "[Stdout (''Image saved: '' @ str (resolve e (output_path_of a d i)))]
           @ (if count a = 1
              then [Stdout (''MEDIA: '' @ str (resolve e (output_path_of a d i)))] else [])"])
       auto
next
  case (empty qs evs1)
  with assms(2) show ?thesis
    by (intro that [of evs1 "Inr False"
          "[Stderr (''Error: No image was generated in response '' @ str_nat (i + 1) @ ''.'')]"])
       auto
qed

lemma iteration_saved_count:
  assumes "iteration e a d im r i gen = (evs, gen', st)"
  shows "length (saved_paths evs) = images_saved_from (generate_content e i)"
proof (cases "generate_content e i")
  case (Raised err)
  with iteration_failure(2) [OF assms] show ?thesis by (simp add: images_saved_from_def)
next
  case (Response ps)
  from assms Response obtain evs1 res tail where
    "process_response e a (output_path_of a d i) r ps False None gen = (evs1, gen', res)"
    "evs = announce a i @ request a im r @ evs1 @ tail" "saved_paths tail = []"
    by (rule iteration_response)
  with process_response_saved_count [of e a "output_path_of a d i" r ps False None gen evs1 gen' res]
    Response
  show ?thesis by (simp add: images_saved_from_def)
qed

lemma iteration_error_iff:
  assumes "iteration e a d im r i gen = (evs, gen', st)"
  shows "(\<forall>msg. Stderr msg \<notin> set evs) \<longleftrightarrow> call_succeeds (generate_content e i)"
proof (cases "generate_content e i")
  case (Raised err)
  with assms show ?thesis
    by (cases rule: iteration_cases) (auto simp: call_succeeds_def)
next
  case (Response ps)
  from assms Response obtain evs1 res tail where
    pr: "process_response e a (output_path_of a d i) r ps False None gen = (evs1, gen', res)"
    and evs: "evs = announce a i @ request a im r @ evs1 @ tail"
    and tail: "(\<exists>msg. Stderr msg \<in> set tail) \<longleftrightarrow> res \<noteq> Inr True"
    by (rule iteration_response)
  have quiet: "Stderr msg \<notin> set (announce a i @ request a im r @ evs1)" for msg
    using process_response_events [OF pr] process_response_entries [OF pr]
    by (auto simp: announce_def request_def split: option.splits
        dest!: process_response_stdout_or_save [OF pr])
  from process_response_result [OF pr]
  have "res = Inr True \<longleftrightarrow> processed_parts ps = ps \<and> picture_positions ps \<noteq> []"
    by auto
  with tail quiet evs Response show ?thesis
    by (auto simp: call_succeeds_def)
qed

subsection \<open>The loop\<close>

lemma generate_images_events:
  "generate_images e a d im r is gen = (evs, res) \<Longrightarrow>
   set (requests evs) \<subseteq> set (requests (request a im r))
     \<and> written_texts evs = [] \<and> made_dirs evs = []
     \<and> set (saved_paths evs) \<subseteq> output_path_of a d ` set is"
proof (induction "is" arbitrary: gen evs res)
  case Nil
  then show ?case by simp
next
  case (Cons i js)
  obtain evs1 gen1 st where it: "iteration e a d im r i gen = (evs1, gen1, st)"
    by (metis prod_cases3)
  from iteration_entries [OF it] have sp: "set (saved_paths evs1) \<subseteq> {output_path_of a d i}"
    by auto
  show ?case
  proof (cases st)
    case (Some s)
    with it Cons.prems have "evs = evs1" by simp
    with iteration_events [OF it] sp show ?thesis by auto
  next
    case None
    obtain evs2 res2 where rec: "generate_images e a d im r js gen1 = (evs2, res2)"
      by (metis surj_pair)
    with it None Cons.prems have "evs = evs1 @ evs2" by simp
    with iteration_events [OF it] sp Cons.IH [OF rec] show ?thesis by auto
  qed
qed

lemma generate_images_batch:
  "generate_images e a d im r is gen = (evs, res) \<Longrightarrow> count a \<noteq> 1 \<Longrightarrow>
   \<exists>pms. res = Inr (gen @ map (\<lambda>(p, mt). image_entry e a p r mt) pms)
     \<and> saved_paths evs = map fst pms
     \<and> length (requests evs) = length is"
proof (induction "is" arbitrary: gen evs res)
  case Nil
  then show ?case by simp
next
  case (Cons i js)
  obtain evs1 gen1 st where it: "iteration e a d im r i gen = (evs1, gen1, st)"
    by (metis prod_cases3)
  from iteration_status [OF it] Cons.prems(2) have st: "st = None" by simp
  obtain evs2 res2 where rec: "generate_images e a d im r js gen1 = (evs2, res2)"
    by (metis surj_pair)
  with it st Cons.prems have evs: "evs = evs1 @ evs2" and res: "res = res2" by simp_all
  from iteration_entries [OF it] obtain mts where
    gen1: "gen1 = gen @ map (image_entry e a (output_path_of a d i) r) mts"
    and sp1: "saved_paths evs1 = replicate (length mts) (output_path_of a d i)"
    by blast
  from Cons.IH [OF rec Cons.prems(2)] obtain pms where
    res2: "res2 = Inr (gen1 @ map (\<lambda>(p, mt). image_entry e a p r mt) pms)"
    and sp2: "saved_paths evs2 = map fst pms"
    and rq2: "length (requests evs2) = length js"
    by blast
  let ?pms = "map (Pair (output_path_of a d i)) mts @ pms"
  have "res = Inr (gen @ map (\<lambda>(p, mt). image_entry e a p r mt) ?pms)"
    by (simp add: res res2 gen1 comp_def)
  moreover have "saved_paths evs = map fst ?pms"
    by (simp add: evs sp1 sp2 comp_def map_replicate_const)
  moreover have "length (requests evs) = length (i # js)"
    using iteration_events(1) [OF it] rq2 by (simp add: evs requests_request)
  ultimately show ?case by blast
qed

lemma sum_list_indicator:
  "(\<forall>x \<in> set xs. f x = (if P x then 1 else 0)) \<Longrightarrow>
   sum_list (map f xs) = length (filter P xs)"
  for f :: "'a \<Rightarrow> nat"
  by (induction xs) simp_all

lemma generate_images_saved_count:
  "generate_images e a d im r is gen = (evs, res) \<Longrightarrow> count a \<noteq> 1 \<Longrightarrow>
   length (saved_paths evs) = sum_list (map (\<lambda>i. images_saved_from (generate_content e i)) is)"
proof (induction "is" arbitrary: gen evs res)
  case Nil
  then show ?case by simp
next
  case (Cons i js)
  obtain evs1 gen1 st where it: "iteration e a d im r i gen = (evs1, gen1, st)"
    by (metis prod_cases3)
  from iteration_status [OF it] Cons.prems(2) have st: "st = None" by simp
  obtain evs2 res2 where rec: "generate_images e a d im r js gen1 = (evs2, res2)"
    by (metis surj_pair)
  with it st Cons.prems have "evs = evs1 @ evs2" by simp
  with iteration_saved_count [OF it] Cons.IH [OF rec Cons.prems(2)] show ?case by simp
qed

lemma generate_images_single:
  "generate_images e a d im r [i] gen =
     (case iteration e a d im r i gen of
        (evs, gen', Some st) \<Rightarrow> (evs, Inl st)
      | (evs, gen', None) \<Rightarrow> (evs, Inr gen'))"
  by (simp split: prod.splits option.splits)

subsection \<open>Metadata and gallery\<close>

lemma prompts_entry_image_entry:
  "prompts_entry (image_entry e a p r mt) = Inr (metadata a r (p, mt))"
  by (simp add: prompts_entry_def image_entry_def metadata_def and_then_def getitem_def
      get_def)

lemma prompts_data_entries:
  "prompts_data (map (\<lambda>(p, mt). image_entry e a p r mt) pms) = Inr (map (metadata a r) pms)"
  by (induction pms) (auto simp: prompts_entry_image_entry and_then_def)

lemma to_json_metadata:
  "to_json (map (metadata a r) pms) = JArray (map (metadata_object a r) pms)"
  by (simp add: to_json_def metadata_def metadata_object_def)

lemma card_image_entry: "card (image_entry e a p r mt) = Inr (gallery_card a r p)"
  by (simp add: card_def image_entry_def gallery_card_def prompt_preview_def and_then_def
      getitem_def get_def escape_value_def preview_def)

lemma cards_entries:
  "cards (map (\<lambda>(p, mt). image_entry e a p r mt) pms)
     = Inr (concat (map (gallery_card a r) (map fst pms)))"
  by (induction pms) (auto simp: card_image_entry and_then_def)

lemma save_metadata_batch:
  assumes "count a > 1" and "pms \<noteq> []"
  shows "save_metadata a d (map (\<lambda>(p, mt). image_entry e a p r mt) pms) =
    ([WriteText (joinpath d (Path ''prompts.json'')) (JsonDump (to_json (map (metadata a r) pms))),
      Stdout (''\<newline>Metadata saved: '' @ str (joinpath d (Path ''prompts.json'')))]
     @ (if no_gallery a then []
        else [WriteText (joinpath d (Path ''index.html''))
                (Text (gallery_header @ concat (map (gallery_card a r) (map fst pms))
                   @ gallery_footer)),
              Stdout (''Gallery saved: '' @ str (joinpath d (Path ''index.html'')))])
     @ [Stdout (''\<newline>Generated '' @ str_nat (length pms) @ ''/'' @ str_int (count a)
          @ '' images in '' @ str d)],
     Exit 0)"
  using assms
  by (simp add: save_metadata_def prompts_data_entries cards_entries generate_gallery_html_def
      Let_def)

lemma save_metadata_events:
  "save_metadata a d gen = (ev3, st) \<Longrightarrow>
   requests ev3 = [] \<and> saved_paths ev3 = [] \<and> made_dirs ev3 = []"
  by (auto simp: save_metadata_def generate_gallery_html_def Let_def
      split: if_splits sum.splits prod.splits)

subsection \<open>The stages of a run\<close>

lemma validate_arguments_messages:
  "validate_arguments a = Some msg \<Longrightarrow> CHR ''\<newline>'' \<notin> set msg"
  by (auto simp: validate_arguments_def split: if_splits)

lemma validate_arguments_batch:
  assumes "validate_arguments a = None" and "count a > 1"
  obtains root_dir where "out_dir a = Some root_dir" "root_dir \<noteq> []"
  using assms by (auto simp: validate_arguments_def truthy_def split: if_splits option.splits)

lemma set_up_output_directory_out_dir:
  assumes "out_dir a = Some root_dir" and "root_dir \<noteq> []"
  shows "set_up_output_directory e a
     = Inr (joinpath (Path root_dir) (PurePath [] [''nano-banana-'' @ strftime (now e)]))"
  using assms Path_timestamp [of "now e"]
  by (simp add: set_up_output_directory_def truthy_def)

lemma set_up_output_directory_timestamped:
  assumes "out_dir a = Some root_dir" and "root_dir \<noteq> []"
  shows "set_up_output_directory e a = Inr (timestamped_subdirectory e root_dir)"
  using set_up_output_directory_out_dir [OF assms, of e]
  by (simp add: timestamped_subdirectory_def joinpath_plain)

lemma load_input_image_events:
  "load_input_image e a = (ev1, res) \<Longrightarrow>
   requests ev1 = [] \<and> saved_paths ev1 = [] \<and> written_texts ev1 = [] \<and> made_dirs ev1 = []"
  by (auto simp: load_input_image_def split: if_splits option.splits sum.splits)

lemma load_input_image_failed:
  "load_input_image e a = (ev1, Inl st) \<Longrightarrow> st = Exit 1"
  by (auto simp: load_input_image_def split: if_splits option.splits sum.splits)

lemma load_input_image_loaded:
  "load_input_image e a = (ev1, Inr (im, r)) \<Longrightarrow>
   (case im of
      None \<Rightarrow> \<not> truthy (input_image a) \<and> r = resolution a
    | Some img \<Rightarrow>
        (\<exists>p. input_image a = Some p \<and> p \<noteq> [] \<and> open_image e p = Inr img)
        \<and> r = (if resolution a = ''1K'' then detect_resolution img else resolution a))"
  by (auto simp: load_input_image_def truthy_def split: if_splits option.splits sum.splits)

lemma missing_key_events [simp]:
  "requests missing_key_message = []" "saved_paths missing_key_message = []"
  "written_texts missing_key_message = []" "made_dirs missing_key_message = []"
  by (simp_all add: missing_key_message_def)

lemma main_cases:
  obtains (invalid) msg where
      "validate_arguments a = Some msg" "main e a = ([Stderr msg], Exit 1)"
  | (no_key)
      "validate_arguments a = None" "\<not> truthy (get_api_key e (api_key a))"
      "main e a = (missing_key_message, Exit 1)"
  | (no_dir) err where
      "validate_arguments a = None" "truthy (get_api_key e (api_key a))"
      "set_up_output_directory e a = Inl err" "main e a = ([], Uncaught err)"
  | (no_image) d ev1 st where
      "validate_arguments a = None" "truthy (get_api_key e (api_key a))"
      "set_up_output_directory e a = Inr d" "load_input_image e a = (ev1, Inl st)"
      "main e a = (Mkdir d # ev1, st)"
  | (stopped) d ev1 im r ev2 st where
      "validate_arguments a = None" "truthy (get_api_key e (api_key a))"
      "set_up_output_directory e a = Inr d" "load_input_image e a = (ev1, Inr (im, r))"
      "generate_images e a d im r [0..<nat (count a)] [] = (ev2, Inl st)"
      "main e a = (Mkdir d # ev1 @ ev2, st)"
  | (finished) d ev1 im r ev2 gen ev3 st where
      "validate_arguments a = None" "truthy (get_api_key e (api_key a))"
      "set_up_output_directory e a = Inr d" "load_input_image e a = (ev1, Inr (im, r))"
      "generate_images e a d im r [0..<nat (count a)] [] = (ev2, Inr gen)"
      "save_metadata a d gen = (ev3, st)"
      "main e a = (Mkdir d # ev1 @ ev2 @ ev3, st)"
proof (cases "validate_arguments a")
  case (Some msg)
  then show ?thesis by (intro invalid [of msg]) (simp_all add: main_def)
next
  case None
  note valid = None
  show ?thesis
  proof (cases "truthy (get_api_key e (api_key a))")
    case False
    with valid show ?thesis by (intro no_key) (simp_all add: main_def)
  next
    case True
    note key = True
    show ?thesis
    proof (cases "set_up_output_directory e a")
      case (Inl err)
      with valid key show ?thesis by (intro no_dir [of err]) (simp_all add: main_def)
    next
      case (Inr d)
      note dir = Inr
      obtain ev1 res1 where load: "load_input_image e a = (ev1, res1)"
        by (metis surj_pair)
      show ?thesis
      proof (cases res1)
        case (Inl st)
        with valid key dir load show ?thesis
          by (intro no_image [of d ev1 st]) (simp_all add: main_def)
      next
        case (Inr imr)
        obtain im r where imr: "imr = (im, r)" by (metis surj_pair)
        obtain ev2 res2 where
          gen: "generate_images e a d im r [0..<nat (count a)] [] = (ev2, res2)"
          by (metis surj_pair)
        show ?thesis
        proof (cases res2)
          case (Inl st)
          with valid key dir load Inr imr gen show ?thesis
            by (intro stopped [of d ev1 im r ev2 st]) (simp_all add: main_def)
        next
          case (Inr g)
          obtain ev3 st where meta: "save_metadata a d g = (ev3, st)"
            by (metis surj_pair)
          with valid key dir load \<open>res1 = Inr imr\<close> imr gen Inr show ?thesis
            by (intro finished [of d ev1 im r ev2 g ev3 st]) (simp_all add: main_def)
        qed
      qed
    qed
  qed
qed

lemma main_requests:
  assumes "GenerateContent m c cfg \<in> set (fst (main e a))"
  obtains d ev1 im r where
    "validate_arguments a = None" "truthy (get_api_key e (api_key a))"
    "set_up_output_directory e a = Inr d" "load_input_image e a = (ev1, Inr (im, r))"
    "(m, c, cfg) \<in> set (requests (request a im r))"
proof -
  from assms have rq: "(m, c, cfg) \<in> set (requests (fst (main e a)))"
    by (simp add: requests_iff)
  show ?thesis
  proof (cases rule: main_cases [of a e])
    case (invalid msg)
    with rq show ?thesis by simp
  next
    case no_key
    with rq show ?thesis by simp
  next
    case (no_dir err)
    with rq show ?thesis by simp
  next
    case (no_image d ev1 st)
    with rq load_input_image_events [OF no_image(4)] show ?thesis by simp
  next
    case (stopped d ev1 im r ev2 st)
    with rq load_input_image_events [OF stopped(4)] generate_images_events [OF stopped(5)]
    show ?thesis by (intro that [of d ev1 im r]) auto
  next
    case (finished d ev1 im r ev2 gen ev3 st)
    with rq load_input_image_events [OF finished(4)] generate_images_events [OF finished(5)]
      save_metadata_events [OF finished(6)]
    show ?thesis by (intro that [of d ev1 im r]) auto
  qed
qed



lemma main_single_failure:
  assumes "count a = 1"
    and "(\<exists>err. generate_content e 0 = Raised err)
       \<or> (\<exists>ps. generate_content e 0 = Response ps \<and> \<not> has_image_part ps)"
  shows "exit_code (snd (main e a)) = 1"
proof (cases rule: main_cases [of a e])
  case (invalid msg)
  then show ?thesis by (simp add: exit_code_def)
next
  case no_key
  then show ?thesis by (simp add: exit_code_def)
next
  case (no_dir err)
  then show ?thesis by (simp add: exit_code_def)
next
  case (no_image d ev1 st)
  with load_input_image_failed [OF no_image(4)] show ?thesis by (simp add: exit_code_def)
next
  case (stopped d ev1 im r ev2 st)
  obtain evs gen' st' where it: "iteration e a d im r 0 [] = (evs, gen', st')"
    by (metis prod_cases3)
  with stopped(5) assms(1) have "st' = Some st"
    by (simp add: generate_images_single split: option.splits)
  with iteration_status [OF it] stopped(6) show ?thesis by (simp add: exit_code_def)
next
  case (finished d ev1 im r ev2 gen ev3 st)
  obtain evs gen' st' where it: "iteration e a d im r 0 [] = (evs, gen', st')"
    by (metis prod_cases3)
  with finished(5) assms(1) have "st' = None"
    by (simp add: generate_images_single split: option.splits)
  with iteration_failure(1) [OF it assms(2)] assms(1) show ?thesis by (simp add: fatal_def)
qed

lemma main_batch:
  assumes "count a > 1"
  shows "(exit_code (snd (main e a)) \<noteq> 0 \<longleftrightarrow> saved_paths (fst (main e a)) = [])
    \<and> (requests (fst (main e a)) \<noteq> [] \<longrightarrow> length (requests (fst (main e a))) = nat (count a))"
proof (cases rule: main_cases [of a e])
  case (invalid msg)
  then show ?thesis by (simp add: exit_code_def)
next
  case no_key
  then show ?thesis by (simp add: exit_code_def)
next
  case (no_dir err)
  then show ?thesis by (simp add: exit_code_def)
next
  case (no_image d ev1 st)
  with load_input_image_failed [OF no_image(4)] load_input_image_events [OF no_image(4)]
  show ?thesis by (simp add: exit_code_def)
next
  case (stopped d ev1 im r ev2 st)
  from assms have "count a \<noteq> 1" by simp
  from generate_images_batch [OF stopped(5) this] show ?thesis by simp
next
  case (finished d ev1 im r ev2 gen ev3 st)
  from assms have "count a \<noteq> 1" by simp
  from generate_images_batch [OF finished(5) this] obtain pms where
    gen: "gen = map (\<lambda>(p, mt). image_entry e a p r mt) pms"
    and sp: "saved_paths ev2 = map fst pms"
    and rq: "length (requests ev2) = nat (count a)"
    by auto
  note ev1 = load_input_image_events [OF finished(4)]
  note ev3 = save_metadata_events [OF finished(6)]
  show ?thesis
  proof (cases "pms = []")
    case True
    with finished(6) gen assms have "st = Exit 1" by (simp add: save_metadata_def)
    with True finished(7) sp rq ev1 ev3 show ?thesis by (simp add: exit_code_def)
  next
    case False
    from save_metadata_batch [OF assms False, of d e r] finished(6) gen
    have "st = Exit 0" by simp
    with False finished(7) sp rq ev1 ev3 show ?thesis by (simp add: exit_code_def)
  qed
qed

lemma main_batch_run:
  assumes "count a > 1" and "saved_paths (fst (main e a)) \<noteq> []"
  obtains root_dir ev1 im r ev2 pms where
    "out_dir a = Some root_dir" "root_dir \<noteq> []"
    "load_input_image e a = (ev1, Inr (im, r))"
    "generate_images e a (timestamped_subdirectory e root_dir) im r [0..<nat (count a)] []
       = (ev2, Inr (map (\<lambda>(p, mt). image_entry e a p r mt) pms))"
    "saved_paths ev2 = map fst pms" "pms \<noteq> []"
    "main e a = (Mkdir (timestamped_subdirectory e root_dir) # ev1 @ ev2
       @ fst (save_metadata a (timestamped_subdirectory e root_dir)
                (map (\<lambda>(p, mt). image_entry e a p r mt) pms)),
       snd (save_metadata a (timestamped_subdirectory e root_dir)
                (map (\<lambda>(p, mt). image_entry e a p r mt) pms)))"
proof (cases rule: main_cases [of a e])
  case (invalid msg)
  with assms(2) show ?thesis by simp
next
  case no_key
  with assms(2) show ?thesis by simp
next
  case (no_dir err)
  with assms(2) show ?thesis by simp
next
  case (no_image d ev1 st)
  with assms(2) load_input_image_events [OF no_image(4)] show ?thesis by simp
next
  case (stopped d ev1 im r ev2 st)
  from assms(1) have "count a \<noteq> 1" by simp
  from generate_images_batch [OF stopped(5) this] show ?thesis by simp
next
  case (finished d ev1 im r ev2 gen ev3 st)
  from finished(1) assms(1) obtain root_dir where
    out: "out_dir a = Some root_dir" "root_dir \<noteq> []"
    by (rule validate_arguments_batch)
  with finished(3) set_up_output_directory_timestamped [OF out, of e]
  have d: "d = timestamped_subdirectory e root_dir" by simp
  from assms(1) have "count a \<noteq> 1" by simp
  from generate_images_batch [OF finished(5) this] obtain pms where
    gen: "gen = map (\<lambda>(p, mt). image_entry e a p r mt) pms"
    and sp: "saved_paths ev2 = map fst pms"
    by auto
  from assms(2) finished(7) load_input_image_events [OF finished(4)]
    save_metadata_events [OF finished(6)] sp
  have "pms \<noteq> []" by auto
  with out finished d gen sp show ?thesis
    by (intro that [of root_dir ev1 im r ev2 pms]) simp_all
qed

lemma main_gallery:
  assumes "WriteText p (Text page) \<in> set (fst (main e a))"
  shows "\<exists>r. page = gallery_header
            @ concat (map (gallery_card a r) (saved_paths (fst (main e a))))
            @ gallery_footer"
proof -
  from assms have wt: "(p, Text page) \<in> set (written_texts (fst (main e a)))"
    by (simp add: written_texts_iff)
  show ?thesis
  proof (cases rule: main_cases [of a e])
    case (invalid msg)
    with wt show ?thesis by simp
  next
    case no_key
    with wt show ?thesis by simp
  next
    case (no_dir err)
    with wt show ?thesis by simp
  next
    case (no_image d ev1 st)
    with wt load_input_image_events [OF no_image(4)] show ?thesis by simp
  next
    case (stopped d ev1 im r ev2 st)
    with wt load_input_image_events [OF stopped(4)] generate_images_events [OF stopped(5)]
    show ?thesis by simp
  next
    case (finished d ev1 im r ev2 gen ev3 st)
    note ev1 = load_input_image_events [OF finished(4)]
    note ev2 = generate_images_events [OF finished(5)]
    note ev3 = save_metadata_events [OF finished(6)]
    from wt finished(7) ev1 ev2 have wt3: "(p, Text page) \<in> set (written_texts ev3)"
      by simp
    have batch: "count a > 1"
    proof (rule ccontr)
      assume "\<not> count a > 1"
      with finished(6) have "ev3 = []" by (simp add: save_metadata_def)
      with wt3 show False by simp
    qed
    then have "count a \<noteq> 1" by simp
    from generate_images_batch [OF finished(5) this] obtain pms where
      gen: "gen = map (\<lambda>(p, mt). image_entry e a p r mt) pms"
      and sp: "saved_paths ev2 = map fst pms"
      by auto
    have ne: "pms \<noteq> []"
    proof
      assume "pms = []"
      with finished(6) gen batch wt3 show False by (auto simp: save_metadata_def)
    qed
    from save_metadata_batch [OF batch ne, of d e r] finished(6) gen wt3
    have "page = gallery_header @ concat (map (gallery_card a r) (map fst pms)) @ gallery_footer"
      by (auto split: if_splits)
    moreover from finished(7) ev1 ev3 sp have "saved_paths (fst (main e a)) = map fst pms"
      by simp
    ultimately show ?thesis by auto
  qed
qed

subsection \<open>Evaluating the example runs\<close>

lemmas run_defs = main_def validate_arguments_def truthy_def get_api_key_def
  set_up_output_directory_def load_input_image_def detect_resolution_def
  iteration_def announce_def request_def fatal_def output_path_of_def save_metadata_def
  Path_def splitroot_def joinpath_def parent_def name_def is_absolute_def str_def
  image_entry_def save_png_def env0_def args0_def text_part_def image_part_def
  picture0_def photo0_def clock0_def strftime_def zfill_def str_int_def str_nat.simps
  Let_def missing_key_message_def

lemmas example_defs = args_single_def args_edit_def args_batch_def env_down_def env_flaky_def

lemma replicate_numeral: "replicate (numeral k) x = x # replicate (pred_numeral k) x"
  by (simp add: numeral_eq_Suc)

section \<open>The claims\<close>

subsection \<open>Failures of a generation\<close>

text \<open>
  Claim C1. In single-image mode, a remote call that raises or a response without an
  image part ends the process with a status that is not zero. In batch mode the exit
  status is not zero exactly when no image was saved during the whole run, and a run
  that reaches the loop issues all \<^verbatim>\<open>count\<close> remote calls, whatever the failures
  among them.
\<close>

theorem generation_failures:
  "(count a = 1
      \<and> ((\<exists>err. generate_content e 0 = Raised err)
         \<or> (\<exists>ps. generate_content e 0 = Response ps \<and> \<not> has_image_part ps))
      \<longrightarrow> exit_code (snd (main e a)) \<noteq> 0)
   \<and> (count a > 1 \<longrightarrow>
        (exit_code (snd (main e a)) \<noteq> 0 \<longleftrightarrow> saved_paths (fst (main e a)) = [])
      \<and> (requests (fst (main e a)) \<noteq> [] \<longrightarrow>
           length (requests (fst (main e a))) = nat (count a)))"
  using main_single_failure [of a e] main_batch [of a e] by simp

theorem generation_failures_witness:
  "count args_single = 1 \<and> generate_content env_down 0 = Raised ''timeout''
   \<and> exit_code (snd (main env_down args_single)) \<noteq> 0
   \<and> count args_batch > 1 \<and> generate_content env_flaky 0 = Raised ''timeout''
   \<and> saved_paths (fst (main env_flaky args_batch)) \<noteq> []
   \<and> exit_code (snd (main env_flaky args_batch)) = 0
   \<and> length (requests (fst (main env_flaky args_batch))) = 2"
proof -
  have s1: "count args_single = 1" and s2: "generate_content env_down 0 = Raised ''timeout''"
    and b1: "count args_batch > 1" and b2: "generate_content env_flaky 0 = Raised ''timeout''"
    and b3: "nat (count args_batch) = 2"
    by (simp_all add: example_defs args0_def env0_def)
  have b4: "saved_paths (fst (main env_flaky args_batch)) \<noteq> []"
    by (simp add: run_defs example_defs upt_rec prompts_entry_def and_then_def getitem_def get_def to_json_def)
  have b5: "requests (fst (main env_flaky args_batch)) \<noteq> []"
    by (simp add: run_defs example_defs upt_rec prompts_entry_def and_then_def getitem_def get_def to_json_def)
  from generation_failures [of args_single env_down] s1 s2
  have "exit_code (snd (main env_down args_single)) \<noteq> 0" by blast
  moreover from generation_failures [of args_batch env_flaky] b1 b3 b4 b5
  have "exit_code (snd (main env_flaky args_batch)) = 0
      \<and> length (requests (fst (main env_flaky args_batch))) = 2" by simp
  ultimately show ?thesis using s1 s2 b1 b2 b4 by blast
qed

subsection \<open>Argument validation\<close>

text \<open>
  Claim C2. With \<^verbatim>\<open>count > 1\<close> and no \<^verbatim>\<open>--out-dir\<close>, or with \<^verbatim>\<open>count == 1\<close> and
  neither \<^verbatim>\<open>--filename\<close> nor \<^verbatim>\<open>--out-dir\<close>, the only effect of the run is one
  message on standard error, of one line, and the exit status is not zero: no
  directory is made, no file is opened or written, no remote call is issued.
\<close>

theorem validation_rejects_missing_output:
  assumes "(count a > 1 \<and> out_dir a = None)
         \<or> (count a = 1 \<and> filename a = None \<and> out_dir a = None)"
  shows "\<exists>msg. fst (main e a) = [Stderr msg] \<and> CHR ''\<newline>'' \<notin> set msg
           \<and> exit_code (snd (main e a)) \<noteq> 0"
proof -
  from assms obtain msg where msg: "validate_arguments a = Some msg"
    by (auto simp: validate_arguments_def truthy_def)
  then have "main e a = ([Stderr msg], Exit 1)" by (simp add: main_def)
  with validate_arguments_messages [OF msg] show ?thesis by (simp add: exit_code_def)
qed

theorem validation_rejects_missing_output_witness:
  "count (args0\<lparr>count := 4\<rparr>) > 1 \<and> out_dir (args0\<lparr>count := 4\<rparr>) = None
   \<and> (\<exists>msg. fst (main env0 (args0\<lparr>count := 4\<rparr>)) = [Stderr msg]
          \<and> CHR ''\<newline>'' \<notin> set msg
          \<and> exit_code (snd (main env0 (args0\<lparr>count := 4\<rparr>))) \<noteq> 0)"
proof -
  have h: "count (args0\<lparr>count := 4\<rparr>) > 1 \<and> out_dir (args0\<lparr>count := 4\<rparr>) = None"
    by (simp add: args0_def)
  then have "(count (args0\<lparr>count := 4\<rparr>) > 1 \<and> out_dir (args0\<lparr>count := 4\<rparr>) = None)
     \<or> (count (args0\<lparr>count := 4\<rparr>) = 1 \<and> filename (args0\<lparr>count := 4\<rparr>) = None
        \<and> out_dir (args0\<lparr>count := 4\<rparr>) = None)"
    by blast
  from validation_rejects_missing_output [OF this, of env0] h show ?thesis by blast
qed

subsection \<open>Resolution of an edited image\<close>

text \<open>
  Claim C3. In a run whose input image loads with width \<open>w\<close> and height \<open>h\<close>, every
  request carries as \<^verbatim>\<open>image_size\<close> the resolution recomputed from the longer edge
  (4K from 3000 pixels, 2K from 1500 pixels, else 1K) when the requested resolution is
  the default 1K, and the requested resolution unchanged when it is any other.
\<close>

theorem effective_resolution:
  assumes "input_image a = Some p" and "p \<noteq> []"
    and "open_image e p = Inr img" and "size_wh img = (w, h)"
    and "GenerateContent m c cfg \<in> set (fst (main e a))"
  shows "map_of cfg ''image_size'' =
     Some (if resolution a = ''1K''
           then (if max w h \<ge> 3000 then ''4K'' else if max w h \<ge> 1500 then ''2K'' else ''1K'')
           else resolution a)"
proof -
  from assms(5) obtain d ev1 im r where
    load: "load_input_image e a = (ev1, Inr (im, r))"
    and rq: "(m, c, cfg) \<in> set (requests (request a im r))"
    by (rule main_requests)
  from assms(1,2) have "truthy (input_image a)" by (simp add: truthy_def)
  with load_input_image_loaded [OF load] assms(1,3) have
    "r = (if resolution a = ''1K'' then detect_resolution img else resolution a)"
    by (auto split: option.splits)
  moreover from rq have "map_of cfg ''image_size'' = Some r"
    by (auto simp: requests_request)
  ultimately show ?thesis
    using assms(4) by (simp add: detect_resolution_def Let_def)
qed

theorem effective_resolution_witness:
  "input_image args_edit = Some ''photo.jpg'' \<and> open_image env0 ''photo.jpg'' = Inr photo0
   \<and> size_wh photo0 = (3200, 1800) \<and> resolution args_edit = ''1K''
   \<and> GenerateContent ''m1'' (ImageAndPrompt photo0 ''a <b> & c'') [(''image_size'', ''4K'')]
        \<in> set (fst (main env0 args_edit))
   \<and> map_of [(''image_size'', ''4K'')] ''image_size'' = Some ''4K''"
proof -
  have h1: "input_image args_edit = Some ''photo.jpg''"
    and h2: "''photo.jpg'' \<noteq> []"
    and h3: "open_image env0 ''photo.jpg'' = Inr photo0"
    and h4: "size_wh photo0 = (3200, 1800)"
    and h5: "resolution args_edit = ''1K''"
    by (simp_all add: args_edit_def args0_def env0_def photo0_def)
  have h6: "GenerateContent ''m1'' (ImageAndPrompt photo0 ''a <b> & c'')
      [(''image_size'', ''4K'')] \<in> set (fst (main env0 args_edit))"
    by (simp add: run_defs example_defs)
  from effective_resolution [OF h1 h2 h3 h4 h6] h5
  have "map_of [(''image_size'', ''4K'')] ''image_size'' = Some ''4K''" by simp
  with h1 h3 h4 h5 h6 show ?thesis by blast
qed

subsection \<open>Image configuration of a request\<close>

text \<open>
  Claim C4. In every request of every run, the image configuration holds the key
  \<^verbatim>\<open>aspect_ratio\<close> exactly when no input image was given (an empty path counts as none,
  as it does for the script), which is exactly when the contents are the prompt alone;
  its value is then the requested aspect ratio. The key \<^verbatim>\<open>image_size\<close> is present in
  every request.
\<close>

theorem aspect_ratio_only_when_generating:
  assumes "GenerateContent m c cfg \<in> set (fst (main e a))"
  shows "(map_of cfg ''aspect_ratio'' \<noteq> None \<longleftrightarrow> \<not> truthy (input_image a))
     \<and> (map_of cfg ''aspect_ratio'' \<noteq> None \<longleftrightarrow> c = PromptOnly (prompt a))
     \<and> (\<not> truthy (input_image a) \<longrightarrow> map_of cfg ''aspect_ratio'' = Some (aspect_ratio a))
     \<and> map_of cfg ''image_size'' \<noteq> None"
proof -
  from assms obtain d ev1 im r where
    load: "load_input_image e a = (ev1, Inr (im, r))"
    and rq: "(m, c, cfg) \<in> set (requests (request a im r))"
    by (rule main_requests)
  show ?thesis
  proof (cases im)
    case None
    with load_input_image_loaded [OF load] rq show ?thesis
      by (auto simp: requests_request)
  next
    case (Some img)
    with load_input_image_loaded [OF load] rq show ?thesis
      by (auto simp: requests_request truthy_def)
  qed
qed

theorem aspect_ratio_only_when_generating_witness:
  "GenerateContent ''m1'' (PromptOnly ''a <b> & c'')
      [(''image_size'', ''1K''), (''aspect_ratio'', ''16:9'')] \<in> set (fst (main env0 args_single))
   \<and> \<not> truthy (input_image args_single)
   \<and> map_of [(''image_size'', ''1K''), (''aspect_ratio'', ''16:9'')] ''aspect_ratio''
       = Some (aspect_ratio args_single)
   \<and> GenerateContent ''m1'' (ImageAndPrompt photo0 ''a <b> & c'') [(''image_size'', ''4K'')]
        \<in> set (fst (main env0 args_edit))
   \<and> truthy (input_image args_edit)
   \<and> map_of [(''image_size'', ''4K'')] ''aspect_ratio'' = None
   \<and> map_of [(''image_size'', ''4K'')] ''image_size'' \<noteq> None"
proof -
  have g: "GenerateContent ''m1'' (PromptOnly ''a <b> & c'')
      [(''image_size'', ''1K''), (''aspect_ratio'', ''16:9'')] \<in> set (fst (main env0 args_single))"
    by (simp add: run_defs example_defs)
  have ed: "GenerateContent ''m1'' (ImageAndPrompt photo0 ''a <b> & c'')
      [(''image_size'', ''4K'')] \<in> set (fst (main env0 args_edit))"
    by (simp add: run_defs example_defs)
  have ng: "\<not> truthy (input_image args_single)" and te: "truthy (input_image args_edit)"
    by (simp_all add: truthy_def example_defs args0_def)
  from aspect_ratio_only_when_generating [OF g] ng
  have "map_of [(''image_size'', ''1K''), (''aspect_ratio'', ''16:9'')] ''aspect_ratio''
       = Some (aspect_ratio args_single)" by blast
  moreover from aspect_ratio_only_when_generating [OF ed] te
  have "map_of [(''image_size'', ''4K'')] ''aspect_ratio'' = None
      \<and> map_of [(''image_size'', ''4K'')] ''image_size'' \<noteq> None" by blast
  ultimately show ?thesis using g ed ng te by blast
qed

subsection \<open>Files of a generation\<close>




subsection \<open>Output directory and output path\<close>




text \<open>
  The statement above leaves out a relative file name with a directory part when no
  \<^verbatim>\<open>--out-dir\<close> is given. The script then makes the parent of the file name and
  joins the file name onto that parent, so the directory part appears twice in the
  path at which it saves.
\<close>

lemma relative_filename_joined_onto_its_parent:
  "made_dirs (fst (main env0 args_nested)) = [PurePath [] [''shots'']]
   \<and> saved_paths (fst (main env0 args_nested)) = [PurePath [] [''shots'', ''shots'', ''robot.png'']]"
  by (simp add: run_defs args_nested_def)

subsection \<open>Summary and metadata of a batch\<close>

text \<open>
  Claim C7 says that a batch run in which \<open>k\<close> of \<open>n\<close> remote calls succeed reports
  \<open>k/n\<close> images and writes \<open>k\<close> metadata objects. When each of two responses holds
  two image parts, both calls succeed and the run reports four images out of two.
\<close>

theorem batch_summary_counts_images_counterexample:
  "count args_batch = 2
   \<and> generate_content env_double 0
       = Response [image_part (Picture picture0), image_part (Picture picture0)]
   \<and> generate_content env_double 1
       = Response [image_part (Picture picture0), image_part (Picture picture0)]
   \<and> length (requests (fst (main env_double args_batch))) = 2
   \<and> last (fst (main env_double args_batch))
       = Stdout ''\<newline>Generated 4/2 images in out/nano-banana-20261104-013107''
   \<and> snd (main env_double args_batch) = Exit 0"
  by (simp add: run_defs example_defs env_double_def upt_rec prompts_entry_def and_then_def
      getitem_def get_def to_json_def replicate_numeral)

text \<open>
  Claim C7, amended. A batch run that saves \<open>m\<close> images, \<open>m\<close> at least one, exits
  with status 0; its last line of output reports \<open>m\<close> images out of \<^verbatim>\<open>count\<close> in
  the timestamped subdirectory; and it writes to \<^verbatim>\<open>prompts.json\<close> in that
  subdirectory an array of exactly \<open>m\<close> objects, one for each saved image in the
  order of saving, with the fields \<^verbatim>\<open>filename\<close> (the name of the saved file),
  \<^verbatim>\<open>prompt\<close>, \<^verbatim>\<open>resolution\<close> (the size sent in every request),
  \<^verbatim>\<open>aspect_ratio\<close>, \<^verbatim>\<open>model\<close> and \<^verbatim>\<open>model_text\<close> (a text or null). The
  number \<open>m\<close> is the sum, over the \<^verbatim>\<open>count\<close> calls, of the images saved from the
  outcome of each call: the image parts that the loop over its response reaches, none
  for a call that raises. It is the number \<open>k\<close> of calls that succeed (whose response is
  processed to its end without an exception and has an image saved) whenever each call
  that succeeds saves exactly one image and each call that fails saves none.
\<close>

theorem batch_summary:
  assumes "count a > 1" and "saved_paths (fst (main e a)) \<noteq> []"
  shows "snd (main e a) = Exit 0
     \<and> (\<exists>root_dir r mts.
           out_dir a = Some root_dir
         \<and> length mts = length (saved_paths (fst (main e a)))
         \<and> last (fst (main e a))
             = Stdout (''\<newline>Generated '' @ str_nat (length (saved_paths (fst (main e a))))
                 @ ''/'' @ str_int (count a) @ '' images in ''
                 @ str (timestamped_subdirectory e root_dir))
         \<and> (PurePath (root (timestamped_subdirectory e root_dir))
               (parts (timestamped_subdirectory e root_dir) @ [''prompts.json'']),
             JsonDump (JArray (map (metadata_object a r)
               (zip (saved_paths (fst (main e a))) mts))))
             \<in> set (written_texts (fst (main e a)))
         \<and> (\<forall>(m, c, cfg) \<in> set (requests (fst (main e a))).
               map_of cfg ''image_size'' = Some r))
     \<and> length (saved_paths (fst (main e a)))
         = sum_list (map (\<lambda>i. images_saved_from (generate_content e i)) [0..<nat (count a)])
     \<and> ((\<forall>i < nat (count a).
            images_saved_from (generate_content e i)
              = (if call_succeeds (generate_content e i) then 1 else 0))
        \<longrightarrow> length (saved_paths (fst (main e a)))
              = length (filter (\<lambda>i. call_succeeds (generate_content e i))
                  [0..<nat (count a)]))"
proof -
  from assms obtain root_dir ev1 im r ev2 pms where
    out: "out_dir a = Some root_dir"
    and load: "load_input_image e a = (ev1, Inr (im, r))"
    and gen: "generate_images e a (timestamped_subdirectory e root_dir) im r
         [0..<nat (count a)] [] = (ev2, Inr (map (\<lambda>(p, mt). image_entry e a p r mt) pms))"
    and sp: "saved_paths ev2 = map fst pms" and ne: "pms \<noteq> []"
    and run: "main e a = (Mkdir (timestamped_subdirectory e root_dir) # ev1 @ ev2
       @ fst (save_metadata a (timestamped_subdirectory e root_dir)
                (map (\<lambda>(p, mt). image_entry e a p r mt) pms)),
       snd (save_metadata a (timestamped_subdirectory e root_dir)
                (map (\<lambda>(p, mt). image_entry e a p r mt) pms)))"
    by (rule main_batch_run)
  let ?d = "timestamped_subdirectory e root_dir"
  let ?T = "fst (main e a)"
  note meta = save_metadata_batch [OF assms(1) ne, of ?d e r]
  note ev1 = load_input_image_events [OF load]
  note ev2 = generate_images_events [OF gen]
  have saved: "saved_paths ?T = map fst pms"
    by (simp add: run meta ev1 sp)
  have exit: "snd (main e a) = Exit 0" by (simp add: run meta)
  have final: "last ?T = Stdout (''\<newline>Generated '' @ str_nat (length (saved_paths ?T))
      @ ''/'' @ str_int (count a) @ '' images in '' @ str ?d)"
    by (simp only: saved length_map) (simp add: run meta)
  have zip: "zip (saved_paths ?T) (map snd pms) = pms"
    by (simp add: saved zip_map_fst_snd)
  have json: "(PurePath (root ?d) (parts ?d @ [''prompts.json'']),
      JsonDump (JArray (map (metadata_object a r) (zip (saved_paths ?T) (map snd pms)))))
      \<in> set (written_texts ?T)"
    by (simp add: zip) (simp add: run meta ev1 ev2 to_json_metadata Path_fixed_names joinpath_plain)
  have size: "\<forall>(m, c, cfg) \<in> set (requests ?T). map_of cfg ''image_size'' = Some r"
    using ev2 by (auto simp: run meta ev1 requests_request)
  have len: "length (map snd pms) = length (saved_paths ?T)" by (simp add: saved)
  from assms(1) have "count a \<noteq> 1" by simp
  from generate_images_saved_count [OF gen this] sp saved
  have total: "length (saved_paths ?T)
      = sum_list (map (\<lambda>i. images_saved_from (generate_content e i)) [0..<nat (count a)])"
    by simp
  have calls: "length (saved_paths ?T)
      = length (filter (\<lambda>i. call_succeeds (generate_content e i)) [0..<nat (count a)])"
    if "\<forall>i < nat (count a). images_saved_from (generate_content e i)
          = (if call_succeeds (generate_content e i) then 1 else 0)"
  proof -
    from that have "\<forall>i \<in> set [0..<nat (count a)]. images_saved_from (generate_content e i)
          = (if call_succeeds (generate_content e i) then 1 else 0)"
      by simp
    from sum_list_indicator [of "[0..<nat (count a)]"
        "\<lambda>i. images_saved_from (generate_content e i)"
        "\<lambda>i. call_succeeds (generate_content e i)", OF this] total
    show ?thesis by simp
  qed
  from exit out len final json size
  have "\<exists>root_dir r mts.
           out_dir a = Some root_dir
         \<and> length mts = length (saved_paths ?T)
         \<and> last ?T
             = Stdout (''\<newline>Generated '' @ str_nat (length (saved_paths ?T))
                 @ ''/'' @ str_int (count a) @ '' images in ''
                 @ str (timestamped_subdirectory e root_dir))
         \<and> (PurePath (root (timestamped_subdirectory e root_dir))
               (parts (timestamped_subdirectory e root_dir) @ [''prompts.json'']),
             JsonDump (JArray (map (metadata_object a r)
               (zip (saved_paths ?T) mts))))
             \<in> set (written_texts ?T)
         \<and> (\<forall>(m, c, cfg) \<in> set (requests ?T). map_of cfg ''image_size'' = Some r)"
    by blast
  with exit total calls show ?thesis by blast
qed

theorem batch_summary_witness:
  "count args_batch > 1 \<and> saved_paths (fst (main env_flaky args_batch)) \<noteq> []
   \<and> snd (main env_flaky args_batch) = Exit 0
   \<and> \<not> call_succeeds (generate_content env_flaky 0)
   \<and> call_succeeds (generate_content env_flaky 1)
   \<and> length (saved_paths (fst (main env_flaky args_batch))) = 1"
proof -
  have c: "count args_batch > 1" and n: "nat (count args_batch) = 2"
    by (simp_all add: args_batch_def args0_def)
  have s: "saved_paths (fst (main env_flaky args_batch)) \<noteq> []"
    by (simp add: run_defs example_defs upt_rec prompts_entry_def and_then_def getitem_def
        get_def to_json_def)
  have one: "picture_positions [image_part (Picture picture0)] = [0]"
    by (simp add: picture_positions_Cons is_picture_def is_undecodable_def image_part_def)
       (simp add: picture_positions_def processed_parts_def)
  have whole: "processed_parts [image_part (Picture picture0)] = [image_part (Picture picture0)]"
    by (simp add: processed_parts_Cons is_undecodable_def image_part_def)
       (simp add: processed_parts_def)
  have k0: "\<not> call_succeeds (generate_content env_flaky 0)"
    and k1: "call_succeeds (generate_content env_flaky 1)"
    and m0: "images_saved_from (generate_content env_flaky 0) = 0"
    and m1: "images_saved_from (generate_content env_flaky 1) = 1"
    by (simp_all add: env_flaky_def call_succeeds_def images_saved_from_def one whole)
  have each: "\<forall>i < nat (count args_batch).
      images_saved_from (generate_content env_flaky i)
        = (if call_succeeds (generate_content env_flaky i) then 1 else 0)"
    using k0 k1 m0 m1 by (auto simp: n less_Suc_eq numeral_2_eq_2)
  have k: "length (filter (\<lambda>i. call_succeeds (generate_content env_flaky i))
      [0..<nat (count args_batch)]) = 1"
    using k0 k1 by (simp add: n upt_rec)
  from batch_summary [OF c s] have "snd (main env_flaky args_batch) = Exit 0" by blast
  moreover from batch_summary [OF c s] each k
  have "length (saved_paths (fst (main env_flaky args_batch))) = 1" by simp
  ultimately show ?thesis using c s k0 k1 by blast
qed

subsection \<open>Text recorded with an image\<close>

text \<open>
  Claim C8 says that the text recorded for a response, the last of its text parts, is
  stored with each image of that response. When the text part follows the image part,
  the metadata of the image hold no text at all.
\<close>

theorem later_text_not_recorded_counterexample:
  "generate_content env_caption 0 = Response [image_part (Picture picture0), text_part ''caption'']
   \<and> written_texts (fst (main env_caption args_batch)) =
      [(PurePath [] [''out'', ''nano-banana-20261104-013107'', ''prompts.json''],
        JsonDump (JArray
          [JObject [(''filename'', JString ''image-001.png''), (''prompt'', JString ''a <b> & c''),
                    (''resolution'', JString ''1K''), (''aspect_ratio'', JString ''16:9''),
                    (''model'', JString ''m1''), (''model_text'', JNull)],
           JObject [(''filename'', JString ''image-002.png''), (''prompt'', JString ''a <b> & c''),
                    (''resolution'', JString ''1K''), (''aspect_ratio'', JString ''16:9''),
                    (''model'', JString ''m1''), (''model_text'', JNull)]]))]"
  by (simp add: run_defs example_defs env_caption_def upt_rec prompts_entry_def and_then_def
      getitem_def get_def to_json_def replicate_numeral)

text \<open>
  Claim C8, amended. Each text part of a response that the loop reaches is printed and
  becomes the recorded text, the last one winning. For each image part that the loop
  reaches, one entry is appended, in order, and its \<^verbatim>\<open>model_text\<close>, the value that the
  metadata file takes over, is the text recorded when that image part is reached: the
  text of the last text part that precedes the image part in the same response, and
  nothing (null) when no text part precedes it. Texts of earlier responses and texts
  that follow the image part are not recorded with it.
\<close>

theorem model_text_recorded:
  assumes "iteration e a d im r i generated_images = (evs, generated_images', st)"
    and "generate_content e i = Response ps"
  shows "generated_images' = generated_images
           @ map (\<lambda>j. image_entry e a (output_path_of a d i) r (last_text None (take j ps)))
               (picture_positions ps)
     \<and> (\<forall>k < length (picture_positions ps).
          get (generated_images' ! (length generated_images + k)) ''model_text'' None
            = last_text None (take (picture_positions ps ! k) ps))
     \<and> (\<forall>j. (\<forall>q \<in> set (take j ps). part_text q = None) \<longrightarrow>
              last_text None (take j ps) = None)
     \<and> (\<forall>j < length ps. \<forall>t. part_text (ps ! j) = Some t \<longrightarrow>
              last_text None (take (Suc j) ps) = Some t)
     \<and> (\<forall>q \<in> set (processed_parts ps). \<forall>t. part_text q = Some t \<longrightarrow>
              Stdout (''Model response: '' @ t) \<in> set evs)"
proof -
  from assms obtain evs1 res tail where
    pr: "process_response e a (output_path_of a d i) r ps False None generated_images
           = (evs1, generated_images', res)"
    and evs: "evs = announce a i @ request a im r @ evs1 @ tail"
    by (rule iteration_response)
  let ?entry = "\<lambda>j. image_entry e a (output_path_of a d i) r (last_text None (take j ps))"
  from process_response_model_text [OF pr]
  have entries: "generated_images' = generated_images @ map ?entry (picture_positions ps)" .
  have stored: "get (generated_images' ! (length generated_images + k)) ''model_text'' None
      = last_text None (take (picture_positions ps ! k) ps)"
    if "k < length (picture_positions ps)" for k
    using that by (simp add: entries nth_append image_entry_def get_def)
  have none: "last_text None (take j ps) = None"
    if "\<forall>q \<in> set (take j ps). part_text q = None" for j
  proof -
    from that have "filter (\<lambda>p. part_text p \<noteq> None) (take j ps) = []"
      by (simp add: filter_empty_conv)
    then show ?thesis by (simp add: last_text_def)
  qed
  have wins: "last_text None (take (Suc j) ps) = Some t"
    if "j < length ps" and "part_text (ps ! j) = Some t" for j t
    using that by (simp add: take_Suc_conv_app_nth last_text_snoc)
  have printed: "Stdout (''Model response: '' @ t) \<in> set evs"
    if "q \<in> set (processed_parts ps)" and "part_text q = Some t" for q t
    using process_response_prints [OF pr that] by (simp add: evs)
  from entries stored none wins printed show ?thesis by blast
qed

theorem model_text_recorded_witness:
  "generate_content env_caption 0 = Response [image_part (Picture picture0), text_part ''caption'']
   \<and> fst (snd (iteration env_caption args_single (PurePath [] []) None ''1K'' 0 []))
      = [image_entry env_caption args_single (output_path_of args_single (PurePath [] []) 0)
           ''1K'' None]
   \<and> Stdout ''Model response: caption''
       \<in> set (fst (iteration env_caption args_single (PurePath [] []) None ''1K'' 0 []))
   \<and> generate_content env_texts 0 = Response parts_example
   \<and> fst (snd (iteration env_texts args_single (PurePath [] []) None ''1K'' 0 []))
      = [image_entry env_texts args_single (output_path_of args_single (PurePath [] []) 0)
           ''1K'' (Some ''second'')]"
proof -
  let ?cap = "iteration env_caption args_single (PurePath [] []) None ''1K'' 0 []"
  let ?txt = "iteration env_texts args_single (PurePath [] []) None ''1K'' 0 []"
  let ?ps = "[image_part (Picture picture0), text_part ''caption'']"
  have cap: "?cap = (fst ?cap, fst (snd ?cap), snd (snd ?cap))"
    and exm: "?txt = (fst ?txt, fst (snd ?txt), snd (snd ?txt))"
    by simp_all
  have c1: "generate_content env_caption 0 = Response ?ps"
    and t1: "generate_content env_texts 0 = Response parts_example"
    by (simp_all add: env_caption_def env_texts_def)
  have c2: "picture_positions ?ps = [0]"
    by (simp add: picture_positions_Cons is_picture_def is_undecodable_def text_part_def
        image_part_def) (simp add: picture_positions_def processed_parts_def)
  have c3: "last_text None (take 0 ?ps) = None" by simp
  have c4: "text_part ''caption'' \<in> set (processed_parts ?ps)"
    by (simp add: processed_parts_Cons is_undecodable_def text_part_def image_part_def)
  have c5: "part_text (text_part ''caption'') = Some ''caption''" by (simp add: text_part_def)
  have t2: "picture_positions parts_example = [2]"
    by (simp add: parts_example_def picture_positions_Cons is_picture_def is_undecodable_def
        text_part_def image_part_def) (simp add: picture_positions_def processed_parts_def)
  have t3: "last_text None (take 2 parts_example) = Some ''second''"
    by (simp add: parts_example_def last_text_def text_part_def image_part_def)
  from model_text_recorded [OF cap c1]
  have "fst (snd ?cap) = [] @ map (\<lambda>j. image_entry env_caption args_single
          (output_path_of args_single (PurePath [] []) 0) ''1K'' (last_text None (take j ?ps)))
          (picture_positions ?ps)"
    by blast
  then have r1: "fst (snd ?cap) = [image_entry env_caption args_single
      (output_path_of args_single (PurePath [] []) 0) ''1K'' None]"
    by (simp only: c2 c3 list.map append_Nil)
  from model_text_recorded [OF cap c1] c4 c5
  have "Stdout (''Model response: '' @ ''caption'') \<in> set (fst ?cap)" by blast
  then have r2: "Stdout ''Model response: caption'' \<in> set (fst ?cap)" by simp
  from model_text_recorded [OF exm t1]
  have "fst (snd ?txt) = [] @ map (\<lambda>j. image_entry env_texts args_single
          (output_path_of args_single (PurePath [] []) 0) ''1K''
          (last_text None (take j parts_example))) (picture_positions parts_example)"
    by blast
  then have r3: "fst (snd ?txt) = [image_entry env_texts args_single
      (output_path_of args_single (PurePath [] []) 0) ''1K'' (Some ''second'')]"
    by (simp only: t2 t3 list.map append_Nil)
  from c1 r1 r2 t1 r3 show ?thesis by blast
qed

subsection \<open>Escaping in the gallery\<close>

text \<open>
  Claim C9. Whenever a run writes the gallery page, the page is the fixed header, one
  card for each saved image in order, and the fixed footer, where the five texts
  interpolated into a card are the results of \<^verbatim>\<open>html.escape\<close> on the file name, on
  the first fifty characters of the prompt (followed by three dots when the prompt is
  longer), on the whole prompt, on the resolution and on the model; none of these texts
  contains an angle bracket or a quotation mark, so none can open or close a tag or an
  attribute value.
\<close>

theorem gallery_text_escaped:
  assumes "WriteText p (Text page) \<in> set (fst (main e a))"
  shows "\<exists>r. page = gallery_header
            @ concat (map (\<lambda>image_path.
                card_html (escape (name image_path))
                  (escape (take 50 (prompt a)) @ (if length (prompt a) > 50 then ''...'' else []))
                  (escape (prompt a)) (escape r) (escape (model a)))
                (saved_paths (fst (main e a))))
            @ gallery_footer
          \<and> markup_free (escape (take 50 (prompt a)) @ (if length (prompt a) > 50 then ''...'' else []))
          \<and> markup_free (escape (prompt a)) \<and> markup_free (escape r)
          \<and> markup_free (escape (model a))
          \<and> (\<forall>image_path \<in> set (saved_paths (fst (main e a))).
                markup_free (escape (name image_path)))"
proof -
  from main_gallery [OF assms] obtain r where
    page: "page = gallery_header @ concat (map (gallery_card a r) (saved_paths (fst (main e a))))
       @ gallery_footer"
    by blast
  have card: "gallery_card a r = (\<lambda>image_path.
      card_html (escape (name image_path))
        (escape (take 50 (prompt a)) @ (if length (prompt a) > 50 then ''...'' else []))
        (escape (prompt a)) (escape r) (escape (model a)))"
    by (rule ext) (simp only: gallery_card_def prompt_preview_def)
  have "markup_free (escape (take 50 (prompt a))
          @ (if length (prompt a) > 50 then ''...'' else []))"
    using markup_free_preview [of "prompt a"] by (simp only: prompt_preview_def)
  with page show ?thesis
    by (intro exI [of _ r]) (simp only: card markup_free_escape simp_thms ball_triv)
qed

theorem gallery_text_escaped_witness:
  \<open>WriteText (PurePath [] [''out'', ''nano-banana-20261104-013107'', ''index.html''])
     (Text (gallery_header
        @ card_html ''image-001.png'' ''a &lt;b&gt; &amp; c'' ''a &lt;b&gt; &amp; c'' ''1K'' ''m1''
        @ card_html ''image-002.png'' ''a &lt;b&gt; &amp; c'' ''a &lt;b&gt; &amp; c'' ''1K'' ''m1''
        @ gallery_footer))
     \<in> set (fst (main env0 args_gallery))
   \<and> prompt args_gallery = ''a <b> & c''
   \<and> markup_free (escape (prompt args_gallery))
   \<and> markup_free (escape (model args_gallery))\<close>
proof -
  have h: \<open>WriteText (PurePath [] [''out'', ''nano-banana-20261104-013107'', ''index.html''])
     (Text (gallery_header
        @ card_html ''image-001.png'' ''a &lt;b&gt; &amp; c'' ''a &lt;b&gt; &amp; c'' ''1K'' ''m1''
        @ card_html ''image-002.png'' ''a &lt;b&gt; &amp; c'' ''a &lt;b&gt; &amp; c'' ''1K'' ''m1''
        @ gallery_footer))
     \<in> set (fst (main env0 args_gallery))\<close>
    by (simp add: run_defs args_gallery_def upt_rec prompts_entry_def and_then_def getitem_def
        get_def to_json_def generate_gallery_html_def card_def escape_value_def preview_def
        escape_def replace_def replicate_numeral)
  have p: "prompt args_gallery = ''a <b> & c''" by (simp add: args_gallery_def args0_def)
  from gallery_text_escaped [OF h]
  have "markup_free (escape (prompt args_gallery)) \<and> markup_free (escape (model args_gallery))"
    by blast
  with h p show ?thesis by blast
qed

subsection \<open>A count below one\<close>

text \<open>
  Claim C10 says that every invocation with \<^verbatim>\<open>count <= 0\<close> and an output directory
  makes the timestamped directory and exits with status 0. Without a credential it
  does neither: the credential check comes first.
\<close>

theorem nonpositive_count_without_key_counterexample:
  "count args_zero \<le> 0 \<and> out_dir args_zero = Some ''out''
   \<and> made_dirs (fst (main env_nokey args_zero)) = []
   \<and> snd (main env_nokey args_zero) = Exit 1"
  by (simp add: run_defs env_nokey_def args_zero_def)

text \<open>
  Claim C10, amended. An invocation with \<^verbatim>\<open>count <= 0\<close> passes argument validation.
  Without a credential the run then stops at the credential check, with status 1 and no
  effect but its message. With a credential: when neither \<^verbatim>\<open>--filename\<close> nor
  \<^verbatim>\<open>--out-dir\<close> is given, the run ends in an uncaught \<^verbatim>\<open>TypeError\<close> before any
  effect, with no message of its own on standard error; when \<^verbatim>\<open>--out-dir\<close> is given,
  the run makes the timestamped directory, issues no remote call, saves no image and
  writes no file, and it exits with status 0 unless an input image is given and fails
  to load, in which case it exits with status 1.
\<close>

theorem nonpositive_count:
  assumes "count a \<le> 0"
  shows "validate_arguments a = None
     \<and> (\<not> truthy (get_api_key e (api_key a)) \<longrightarrow> main e a = (missing_key_message, Exit 1))
     \<and> (truthy (get_api_key e (api_key a)) \<longrightarrow>
          (filename a = None \<and> out_dir a = None \<longrightarrow>
             main e a = ([], Uncaught ''TypeError'') \<and> exit_code (snd (main e a)) \<noteq> 0)
        \<and> (\<forall>root_dir. out_dir a = Some root_dir \<and> root_dir \<noteq> [] \<longrightarrow>
             made_dirs (fst (main e a))
               = [joinpath (Path root_dir) (PurePath [] [''nano-banana-'' @ strftime (now e)])]
           \<and> requests (fst (main e a)) = [] \<and> saved_paths (fst (main e a)) = []
           \<and> written_texts (fst (main e a)) = []
           \<and> snd (main e a)
               = (if \<not> truthy (input_image a)
                     \<or> (\<exists>p img. input_image a = Some p \<and> open_image e p = Inr img)
                  then Exit 0 else Exit 1)))"
proof -
  from assms have valid: "validate_arguments a = None"
    by (simp add: validate_arguments_def)
  from assms have range: "[0..<nat (count a)] = []" by simp
  from assms have single: "\<not> count a > 1" by simp
  have no_key: "main e a = (missing_key_message, Exit 1)"
    if "\<not> truthy (get_api_key e (api_key a))"
    using that valid by (simp add: main_def)
  have bare: "main e a = ([], Uncaught ''TypeError'')"
    if "truthy (get_api_key e (api_key a))" and "filename a = None" and "out_dir a = None"
    using that valid by (simp add: main_def set_up_output_directory_def truthy_def)
  have dir: "made_dirs (fst (main e a))
               = [joinpath (Path root_dir) (PurePath [] [''nano-banana-'' @ strftime (now e)])]
           \<and> requests (fst (main e a)) = [] \<and> saved_paths (fst (main e a)) = []
           \<and> written_texts (fst (main e a)) = []
           \<and> snd (main e a)
               = (if \<not> truthy (input_image a)
                     \<or> (\<exists>p img. input_image a = Some p \<and> open_image e p = Inr img)
                  then Exit 0 else Exit 1)"
    if key: "truthy (get_api_key e (api_key a))"
      and out: "out_dir a = Some root_dir" "root_dir \<noteq> []" for root_dir
  proof -
    obtain ev1 res1 where load: "load_input_image e a = (ev1, res1)" by (metis surj_pair)
    note ev1 = load_input_image_events [OF load]
    note made = set_up_output_directory_out_dir [OF out, of e]
    show ?thesis
    proof (cases res1)
      case (Inl st)
      with load have st: "st = Exit 1" by (auto dest: load_input_image_failed)
      from load Inl have "\<not> (\<not> truthy (input_image a)
          \<or> (\<exists>p img. input_image a = Some p \<and> open_image e p = Inr img))"
        by (auto simp: load_input_image_def split: if_splits option.splits sum.splits)
      with valid key made load Inl st ev1 show ?thesis by (simp add: main_def)
    next
      case (Inr imr)
      obtain im r where imr: "imr = (im, r)" by (metis surj_pair)
      from load Inr imr load_input_image_loaded [of e a ev1 im r]
      have "\<not> truthy (input_image a)
          \<or> (\<exists>p img. input_image a = Some p \<and> open_image e p = Inr img)"
        by (auto split: option.splits)
      with valid key made load Inr imr range single ev1 show ?thesis
        by (simp add: main_def save_metadata_def)
    qed
  qed
  from valid no_key bare dir show ?thesis by (simp add: exit_code_def)
qed

theorem nonpositive_count_witness:
  "count args_zero \<le> 0 \<and> truthy (get_api_key env0 (api_key args_zero))
   \<and> \<not> truthy (input_image args_zero) \<and> out_dir args_zero = Some ''out''
   \<and> made_dirs (fst (main env0 args_zero))
       = [joinpath (Path ''out'') (PurePath [] [''nano-banana-'' @ strftime (now env0)])]
   \<and> snd (main env0 args_zero) = Exit 0
   \<and> input_image args_zero_missing = Some ''missing.jpg''
   \<and> open_image env0 ''missing.jpg'' = Inl ''No such file''
   \<and> snd (main env0 args_zero_missing) = Exit 1
   \<and> count args_zero_bare \<le> 0 \<and> filename args_zero_bare = None
   \<and> out_dir args_zero_bare = None
   \<and> main env0 args_zero_bare = ([], Uncaught ''TypeError'')
   \<and> \<not> truthy (get_api_key env_nokey (api_key args_zero_bare))
   \<and> main env_nokey args_zero_bare = (missing_key_message, Exit 1)"
proof -
  have z1: "count args_zero \<le> 0" and z2: "truthy (get_api_key env0 (api_key args_zero))"
    and z3: "\<not> truthy (input_image args_zero)" and z4: "out_dir args_zero = Some ''out''"
    and m1: "count args_zero_missing \<le> 0"
    and m2: "truthy (get_api_key env0 (api_key args_zero_missing))"
    and m3: "input_image args_zero_missing = Some ''missing.jpg''"
    and m4: "open_image env0 ''missing.jpg'' = Inl ''No such file''"
    and m5: "out_dir args_zero_missing = Some ''out''"
    and m6: "truthy (input_image args_zero_missing)"
    and b1: "count args_zero_bare \<le> 0"
    and b2: "truthy (get_api_key env0 (api_key args_zero_bare))"
    and b4: "filename args_zero_bare = None" and b5: "out_dir args_zero_bare = None"
    and n2: "\<not> truthy (get_api_key env_nokey (api_key args_zero_bare))"
    by (simp_all add: args_zero_def args_zero_missing_def args_zero_bare_def args0_def env0_def
        env_nokey_def get_api_key_def truthy_def)
  from nonpositive_count [OF z1, of env0] z2 z3 z4
  have "made_dirs (fst (main env0 args_zero))
       = [joinpath (Path ''out'') (PurePath [] [''nano-banana-'' @ strftime (now env0)])]
     \<and> snd (main env0 args_zero) = Exit 0" by simp
  moreover from nonpositive_count [OF m1, of env0] m2 m3 m4 m5 m6
  have "snd (main env0 args_zero_missing) = Exit 1" by simp
  moreover from nonpositive_count [OF b1, of env0] b2 b4 b5
  have "main env0 args_zero_bare = ([], Uncaught ''TypeError'')" by blast
  moreover from nonpositive_count [OF b1, of env_nokey] n2
  have "main env_nokey args_zero_bare = (missing_key_message, Exit 1)" by blast
  ultimately show ?thesis using z1 z2 z3 z4 m3 m4 b1 b4 b5 n2 by blast
qed

end
